theory Spec2Isabelle
  imports Complex_Main "HOL-Library.Monad_Syntax"
begin

section \<open>Conventions of the embedding\<close>

text \<open>
  The C++ sources of the inference core are embedded function by function.
  \<^item> A \<^verbatim>\<open>double\<close> is a real number, and rounding is left out, except in the two
    accumulations of the coalescent model whose summands cancel: their additions are
    parameters of the model. Where the source calls \<^verbatim>\<open>std::log\<close> on a value that may fail
    to be positive, the model calls \<open>std_log\<close>, which has no result (NaN or an infinity in
    C++) unless its argument is positive.
  \<^item> \<^verbatim>\<open>unsigned\<close> and \<^verbatim>\<open>std::size_t\<close> counters are natural numbers; they count reads,
    haplotypes, genotypes and sites, and no sum of them leaves the machine range. A
    difference that can fall below zero is written with its wrap-around.
  \<^item> An exception is a value \<open>Inl e\<close> of a sum type, and so is a read outside a container.
  \<^item> Functions and classes that the sources call but do not define are parameters of
    the functions that call them.
\<close>

datatype error =
    DomainError
  | UnimplementedFeatureError
  | OutOfRange
  | UndefinedBehaviour

definition std_log :: "real \<Rightarrow> real option" where
  "std_log x = (if 0 < x then Some (ln x) else None)"


section \<open>Coalescent model: construction\<close>

text \<open>
  \<^verbatim>\<open>tandem::extract_exact_tandem_repeats\<close> is not part of the sources; the repeats it
  finds in the reference sequence are an argument of the model.
\<close>

record tandem_repeat =
  rep_pos :: nat
  rep_length :: nat
  rep_period :: nat

text \<open>
  One step of the loop of \<^verbatim>\<open>calculate_base_indel_heterozygosities\<close>: the entries of the
  repeat's range are raised to \<open>t = min (base * n ^ 2.6) 1\<close>, \<open>n\<close> the number of copies.
  The repeats are those of the periods 1 to 3 within the sequence: a period is positive
  and the range of a repeat ends within the sequence.
\<close>

definition raise_repeat :: "real \<Rightarrow> tandem_repeat \<Rightarrow> real list \<Rightarrow> real list" where
  "raise_repeat base_indel_heterozygosity r result =
     (let n = rep_length r div rep_period r;
          t = min (base_indel_heterozygosity * (real n powr 2.6)) 1
      in map (\<lambda>(j, h). if rep_pos r \<le> j \<and> j < rep_pos r + rep_length r then max h t else h)
             (enumerate 0 result))"

definition calculate_base_indel_heterozygosities ::
    "nat \<Rightarrow> tandem_repeat list \<Rightarrow> real \<Rightarrow> real list" where
  "calculate_base_indel_heterozygosities sequence_size repeats base_indel_heterozygosity =
     foldl (\<lambda>result r. raise_repeat base_indel_heterozygosity r result)
           (replicate sequence_size base_indel_heterozygosity) repeats"

record coalescent_parameters =
  snp_heterozygosity :: real
  indel_heterozygosity :: real

text \<open>
  A segregating site of the site buffer, reduced to what \<^verbatim>\<open>evaluate\<close> reads of it:
  whether it is an indel, its offset from the start of the reference haplotype
  (\<^verbatim>\<open>begin_distance\<close>) and the size of its region.
\<close>

record site =
  is_indel :: bool
  site_offset :: nat
  site_region_size :: nat

text \<open>
  The members of \<^verbatim>\<open>CoalescentModel\<close> that construction checks and evaluation reads.
  A cached \<^verbatim>\<open>double\<close> is a \<open>real option\<close>, \<open>None\<close> for a value that is not a finite number.
\<close>

record coalescent_model =
  reference_base_indel_heterozygosities :: "real list"
  params :: coalescent_parameters
  site_buffer1 :: "site list"
  k_indel_zero_result_cache :: "real option option list list"
  k_indel_pos_result_cache :: "nat \<times> nat \<times> nat \<times> int \<rightharpoonup> real option"

definition CoalescentModel ::
    "nat \<Rightarrow> tandem_repeat list \<Rightarrow> coalescent_parameters \<Rightarrow> nat \<Rightarrow> error + coalescent_model" where
  "CoalescentModel reference_size reference_repeats ps num_haplotypes_hint =
     (if snp_heterozygosity ps \<le> 0 \<or> indel_heterozygosity ps \<le> 0 then Inl DomainError
      else Inr \<lparr> reference_base_indel_heterozygosities =
                   calculate_base_indel_heterozygosities reference_size reference_repeats
                     (indel_heterozygosity ps),
                 params = ps,
                 site_buffer1 = [],
                 k_indel_zero_result_cache = replicate (2 * num_haplotypes_hint) [],
                 k_indel_pos_result_cache = Map.empty \<rparr>)"


section \<open>Haplotype tree: extension up to a bound\<close>

text \<open>
  \<^verbatim>\<open>detail::extend_tree_until\<close> runs \<^verbatim>\<open>std::find_if\<close> with a predicate that first extends the
  tree with the element and then compares \<^verbatim>\<open>num_haplotypes()\<close> with the bound. The class
  \<^verbatim>\<open>HaplotypeTree\<close> is only declared in the header, so the tree type, \<open>step\<close> (what the
  predicate does to the tree for one element) and \<open>num_haplotypes\<close> are parameters.
  An iterator is the index of its element; \<^verbatim>\<open>last\<close> is the length of the range.
\<close>

fun find_if_extend ::
    "('a \<Rightarrow> 't \<Rightarrow> 't) \<Rightarrow> ('t \<Rightarrow> nat) \<Rightarrow> nat \<Rightarrow> 'a list \<Rightarrow> 't \<Rightarrow> nat \<times> 't" where
  "find_if_extend step num_haplotypes max_haplotypes [] tree = (0, tree)"
| "find_if_extend step num_haplotypes max_haplotypes (a # as) tree =
     (let tree' = step a tree
      in if num_haplotypes tree' \<ge> max_haplotypes then (0, tree')
         else (let (it, tree'') = find_if_extend step num_haplotypes max_haplotypes as tree'
               in (Suc it, tree'')))"

definition extend_tree_until_step ::
    "('a \<Rightarrow> 't \<Rightarrow> 't) \<Rightarrow> ('t \<Rightarrow> nat) \<Rightarrow> 'a list \<Rightarrow> 't \<Rightarrow> nat \<Rightarrow> error + (nat \<times> 't)" where
  "extend_tree_until_step step num_haplotypes elements tree max_haplotypes =
     (if elements = [] then Inr (length elements, tree)
      else (let (it, tree') = find_if_extend step num_haplotypes max_haplotypes elements tree
            in if num_haplotypes tree' = max_haplotypes
               then (if it < length elements then Inr (Suc it, tree')
                     else Inl UndefinedBehaviour)
               else Inr (it, tree')))"

text \<open>The overload for alleles: the predicate calls \<^verbatim>\<open>tree.extend(allele)\<close>.\<close>

definition extend_tree_until ::
    "('a \<Rightarrow> 't \<Rightarrow> 't) \<Rightarrow> ('t \<Rightarrow> nat) \<Rightarrow> 'a list \<Rightarrow> 't \<Rightarrow> nat \<Rightarrow> error + (nat \<times> 't)" where
  "extend_tree_until extend_allele num_haplotypes alleles tree max_haplotypes =
     extend_tree_until_step extend_allele num_haplotypes alleles tree max_haplotypes"

text \<open>
  The overload for variants: the predicate extends with the reference allele and then
  with the alternative allele. A variant is the pair of its two alleles.
\<close>

definition extend_tree_until_variant ::
    "('a \<Rightarrow> 't \<Rightarrow> 't) \<Rightarrow> ('t \<Rightarrow> nat) \<Rightarrow> ('a \<times> 'a) list \<Rightarrow> 't \<Rightarrow> nat \<Rightarrow> error + (nat \<times> 't)" where
  "extend_tree_until_variant extend_allele num_haplotypes variants tree max_haplotypes =
     extend_tree_until_step (\<lambda>(ref_allele, alt_allele) t. extend_allele alt_allele (extend_allele ref_allele t))
       num_haplotypes variants tree max_haplotypes"

text \<open>The tree after the predicate has run on the first \<open>k\<close> elements.\<close>

definition tree_after :: "('a \<Rightarrow> 't \<Rightarrow> 't) \<Rightarrow> 'a list \<Rightarrow> 't \<Rightarrow> nat \<Rightarrow> 't" where
  "tree_after step elements tree k = foldl (\<lambda>t a. step a t) tree (take k elements)"

text \<open>
  Modelled from the spec: \<^verbatim>\<open>HaplotypeTree::extend\<close> and \<^verbatim>\<open>HaplotypeTree::num_haplotypes\<close>,
  whose bodies are not part of the sources. Following the specification of the tree, the
  tree is its frontier, the list of root-to-leaf allele paths. An allele that lies after
  the last allele of a path is appended to it; otherwise the path is kept and the allele
  is attached to the longest prefix of the path that ends before the allele begins, as a
  new path, unless the tree has that path already. The tree with the root alone has no
  haplotype.
\<close>

record contig_allele =
  allele_begin :: nat
  allele_end :: nat
  allele_bases :: string

type_synonym haplotype_tree = "contig_allele list list"

definition allele_is_after :: "contig_allele \<Rightarrow> contig_allele \<Rightarrow> bool" where
  "allele_is_after a b = (allele_end b \<le> allele_begin a)"

fun tree_extend_paths ::
    "contig_allele \<Rightarrow> contig_allele list list \<Rightarrow> contig_allele list list \<Rightarrow> contig_allele list list" where
  "tree_extend_paths a [] acc = acc"
| "tree_extend_paths a (leaf # leafs) acc =
     (if list_all (allele_is_after a) leaf then tree_extend_paths a leafs (acc @ [leaf @ [a]])
      else (let branch = takeWhile (allele_is_after a) leaf @ [a];
                acc' = acc @ [leaf]
            in if branch \<in> set acc' \<or> branch \<in> set leafs
               then tree_extend_paths a leafs acc'
               else tree_extend_paths a leafs (acc' @ [branch])))"

definition tree_extend :: "contig_allele \<Rightarrow> haplotype_tree \<Rightarrow> haplotype_tree" where
  "tree_extend a tree = tree_extend_paths a tree []"

definition tree_num_haplotypes :: "haplotype_tree \<Rightarrow> nat" where
  "tree_num_haplotypes tree = (if tree = [[]] then 0 else length tree)"

definition empty_tree :: haplotype_tree where
  "empty_tree = [[]]"

definition snv :: "nat \<Rightarrow> string \<Rightarrow> contig_allele" where
  "snv p b = \<lparr> allele_begin = p, allele_end = Suc p, allele_bases = b \<rparr>"


section \<open>Tumour model: seeds and dispatch on the ploidy\<close>

text \<open>
  A genotype is the list of its haplotypes, kept in the canonical order of the class
  \<^verbatim>\<open>Genotype\<close>, so that equal genotypes are equal lists. A cancer genotype is the pair of
  its germline and somatic genotypes.
\<close>

record 'h cancer_genotype =
  germline :: "'h list"
  somatic :: "'h list"

definition somatic_ploidy :: "'h cancer_genotype \<Rightarrow> nat" where
  "somatic_ploidy g = length (somatic g)"

text \<open>
  Modelled from the spec: \<^verbatim>\<open>demote\<close>, which \<^verbatim>\<open>cancer_genotype.hpp\<close> defines outside the
  sources. The data model of the specification gives \<open>demote(g)\<close> the germline and
  somatic haplotypes as one flat genotype.
\<close>

definition demote :: "'h cancer_genotype \<Rightarrow> 'h list" where
  "demote g = germline g @ somatic g"

text \<open>
  Modelled from the spec: \<^verbatim>\<open>maths::log_sum_exp\<close> and \<^verbatim>\<open>maths::normalise_logs\<close> of
  \<^verbatim>\<open>utils/maths.hpp\<close>, which is not part of the sources. Every log-sum-exp has the
  max-shift form, and normalising subtracts the log-sum-exp from every entry. The sum
  of exponentials is positive, so the logarithm is the real one.
\<close>

definition log_sum_exp :: "real list \<Rightarrow> real" where
  "log_sum_exp logs = (let m = foldl max (hd logs) logs
                       in m + ln (\<Sum>x\<leftarrow>logs. exp (x - m)))"

definition normalise_logs :: "real list \<Rightarrow> real list" where
  "normalise_logs logs = (let norm = log_sum_exp logs in map (\<lambda>p. p - norm) logs)"

text \<open>
  The collaborators of the seed generation that the sources only call: the germline
  likelihood model on the cache primed for a sample, the Dirichlet expectation, the
  prior mixture alphas of the samples and the genotype prior model.
\<close>

record ('s, 'h) tumour_priors =
  likelihood_evaluate :: "'s \<Rightarrow> 'h list \<Rightarrow> real"
  dirichlet_expectation :: "nat \<Rightarrow> real list \<Rightarrow> real"
  alphas :: "'s \<rightharpoonup> real list"
  genotype_prior_model :: "'h cancer_genotype \<Rightarrow> real"

definition calculate_log_priors ::
    "('s, 'h) tumour_priors \<Rightarrow> 'h cancer_genotype list \<Rightarrow> real list" where
  "calculate_log_priors priors genotypes =
     normalise_logs (map (genotype_prior_model priors) genotypes)"

definition compute_germline_log_likelihoods ::
    "('s, 'h) tumour_priors \<Rightarrow> 's \<Rightarrow> 'h cancer_genotype list \<Rightarrow> real list" where
  "compute_germline_log_likelihoods priors sample genotypes =
     map (\<lambda>genotype. likelihood_evaluate priors sample (germline genotype)) genotypes"

definition compute_demoted_log_likelihoods ::
    "('s, 'h) tumour_priors \<Rightarrow> 's \<Rightarrow> 'h cancer_genotype list \<Rightarrow> real list" where
  "compute_demoted_log_likelihoods priors sample genotypes =
     map (\<lambda>genotype. likelihood_evaluate priors sample (demote genotype)) genotypes"

text \<open>
  \<^verbatim>\<open>std::transform\<close> over two ranges writes one result for each element of the first
  range; all the vectors it meets here have one entry for each genotype.
\<close>

definition compute_log_posteriors :: "real list \<Rightarrow> real list \<Rightarrow> real list" where
  "compute_log_posteriors log_priors log_likelihoods =
     normalise_logs (map2 (\<lambda>prior likelihood. prior + likelihood) log_priors log_likelihoods)"

definition add_to :: "real list \<Rightarrow> real list \<Rightarrow> real list" where
  "add_to other result = map2 (\<lambda>a b. a + b) other result @ drop (length other) result"

definition make_point_seed :: "nat \<Rightarrow> nat \<Rightarrow> real list" where
  "make_point_seed num_genotypes n =
     (let p = 9999 / 10000;
          result = replicate num_genotypes
                     (if num_genotypes > 1 then ln ((1 - p) / (real num_genotypes - 1)) else 0)
      in if num_genotypes > 1 then result[n := ln p] else result)"

definition make_point_seeds :: "nat \<Rightarrow> nat list \<Rightarrow> real list list \<Rightarrow> real list list" where
  "make_point_seeds num_genotypes ns result = result @ map (make_point_seed num_genotypes) ns"

text \<open>
  The fill value of a range seed divides by \<open>num_genotypes - n\<close>; when the range is the
  whole vector no entry keeps the fill value.
\<close>

definition make_range_seed :: "nat \<Rightarrow> nat \<Rightarrow> nat \<Rightarrow> real list" where
  "make_range_seed num_genotypes begin n =
     (let p = 9999 / 10000;
          result = replicate num_genotypes (ln ((1 - p) / (real num_genotypes - real n)))
      in take begin result @ replicate n (ln (p / real n)) @ drop (begin + n) result)"

definition make_range_seed_for ::
    "'h cancer_genotype list \<Rightarrow> 'h list \<Rightarrow> error + real list" where
  "make_range_seed_for genotypes g =
     (let itr1 = length (takeWhile (\<lambda>c. germline c \<noteq> g) genotypes)
      in if itr1 = length genotypes then Inl UndefinedBehaviour
         else (let run = takeWhile (\<lambda>c. germline c = g) (drop (Suc itr1) genotypes)
               in Inr (make_range_seed (length genotypes) itr1 (Suc (length run)))))"

text \<open>
  \<^verbatim>\<open>is_somatic_expected\<close>: \<^verbatim>\<open>alphas.at(sample)\<close> throws for a sample without alphas, and
  \<^verbatim>\<open>alphas.size() - 1\<close> is a difference of the type \<^verbatim>\<open>std::size_t\<close>, of 64 bits, which wraps
  around for an empty vector.
\<close>

definition is_somatic_expected :: "('s, 'h) tumour_priors \<Rightarrow> 's \<Rightarrow> error + bool" where
  "is_somatic_expected priors sample =
     (case alphas priors sample of
        None \<Rightarrow> Inl OutOfRange
      | Some a \<Rightarrow>
          Inr (dirichlet_expectation priors ((length a + 2 ^ 64 - 1) mod 2 ^ 64) a > 5 / 100))"

definition generate_exhaustive_seeds :: "nat \<Rightarrow> real list list" where
  "generate_exhaustive_seeds n = map (\<lambda>i. make_point_seed n i) [0..<n]"

definition num_weighted_seeds :: "'s list \<Rightarrow> 'h cancer_genotype list \<Rightarrow> nat" where
  "num_weighted_seeds samples genotypes =
     1 + 4 * length samples + 2 * (if length samples > 1 then 1 else 0)"

text \<open>
  The loop of \<^verbatim>\<open>generate_weighted_seeds\<close> over the samples. \<^verbatim>\<open>compute_log_posteriors\<close> asserts
  that there are as many log priors as log likelihoods, one for each genotype; the loop
  has no result when the assertion fails.
\<close>

fun weighted_seeds_loop ::
    "('s, 'h) tumour_priors \<Rightarrow> 'h cancer_genotype list \<Rightarrow> real list \<Rightarrow> 's list
       \<Rightarrow> real list list \<times> real list \<Rightarrow> error + (real list list \<times> real list)" where
  "weighted_seeds_loop priors genotypes genotype_log_priors [] acc = Inr acc"
| "weighted_seeds_loop priors genotypes genotype_log_priors (sample # samples)
       (result, combined_log_likelihoods) =
     (let log_likelihoods = compute_germline_log_likelihoods priors sample genotypes;
          demoted_log_likelihoods = compute_demoted_log_likelihoods priors sample genotypes
      in case is_somatic_expected priors sample of
           Inl e \<Rightarrow> Inl e
         | Inr expected \<Rightarrow>
             if length genotype_log_priors \<noteq> length genotypes then Inl UndefinedBehaviour
             else weighted_seeds_loop priors genotypes genotype_log_priors samples
                    (result @ [compute_log_posteriors genotype_log_priors log_likelihoods,
                               normalise_logs log_likelihoods,
                               compute_log_posteriors genotype_log_priors demoted_log_likelihoods,
                               normalise_logs demoted_log_likelihoods],
                     if expected then add_to demoted_log_likelihoods combined_log_likelihoods
                     else add_to log_likelihoods combined_log_likelihoods))"

definition generate_weighted_seeds ::
    "('s, 'h) tumour_priors \<Rightarrow> 's list \<Rightarrow> 'h cancer_genotype list \<Rightarrow> real list
       \<Rightarrow> error + real list list" where
  "generate_weighted_seeds priors samples genotypes genotype_log_priors =
     (case weighted_seeds_loop priors genotypes genotype_log_priors samples
             ([normalise_logs genotype_log_priors], replicate (length genotypes) 0) of
        Inl e \<Rightarrow> Inl e
      | Inr (result, combined_log_likelihoods) \<Rightarrow>
          Inr (if length samples > 1
               then result @ [normalise_logs (add_to genotype_log_priors combined_log_likelihoods),
                              normalise_logs combined_log_likelihoods]
               else result))"


text \<open>
  \<^verbatim>\<open>std::sort\<close> with a comparator, as an insertion sort. The order of elements that the
  comparator does not separate is left open by \<^verbatim>\<open>std::sort\<close>; the model keeps their order.
\<close>

fun insert_sorted :: "('a \<Rightarrow> 'a \<Rightarrow> bool) \<Rightarrow> 'a \<Rightarrow> 'a list \<Rightarrow> 'a list" where
  "insert_sorted cmp x [] = [x]"
| "insert_sorted cmp x (y # ys) =
     (if cmp y x then y # insert_sorted cmp x ys else x # y # ys)"

definition std_sort :: "('a \<Rightarrow> 'a \<Rightarrow> bool) \<Rightarrow> 'a list \<Rightarrow> 'a list" where
  "std_sort cmp xs = foldr (insert_sorted cmp) xs []"

text \<open>\<^verbatim>\<open>std::greater\<close> on pairs of a log-likelihood and an index.\<close>

definition pair_greater :: "real \<times> nat \<Rightarrow> real \<times> nat \<Rightarrow> bool" where
  "pair_greater l r = (fst l > fst r \<or> (fst l = fst r \<and> snd l > snd r))"

text \<open>\<^verbatim>\<open>std::set_difference\<close> of two sorted ranges of haplotypes.\<close>

fun set_difference :: "'h::linorder list \<Rightarrow> 'h list \<Rightarrow> 'h list" where
  "set_difference [] ys = []"
| "set_difference (x # xs) [] = x # xs"
| "set_difference (x # xs) (y # ys) =
     (if x < y then x # set_difference xs (y # ys)
      else if y < x then set_difference (x # xs) ys
      else set_difference xs ys)"

text \<open>The loop that adds one range seed for each selected germline genotype.\<close>

fun range_seeds_loop ::
    "'h cancer_genotype list \<Rightarrow> 'h list list \<Rightarrow> nat \<Rightarrow> real list list
       \<Rightarrow> error + (real list list \<times> nat)" where
  "range_seeds_loop genotypes [] n result = Inr (result, n)"
| "range_seeds_loop genotypes (g # selected) n result =
     (case make_range_seed_for genotypes g of
        Inl e \<Rightarrow> Inl e
      | Inr seed \<Rightarrow>
          (if n - 1 = 0 then Inr (result @ [seed], n - 1)
           else range_seeds_loop genotypes selected (n - 1) (result @ [seed])))"

text \<open>
  The first loop over the sorted likelihoods: it follows the runs of the dominant
  somatic haplotypes within the first selected germline genotype.
\<close>

fun dominant_loop ::
    "'h::linorder cancer_genotype list \<Rightarrow> 'h list \<Rightarrow> (real \<times> nat) list \<Rightarrow> 'h list
       \<Rightarrow> nat list \<Rightarrow> nat \<Rightarrow> nat list \<times> nat" where
  "dominant_loop genotypes front [] dominant_haplotypes point_seeds n = (point_seeds, n)"
| "dominant_loop genotypes front (p # ps) dominant_haplotypes point_seeds n =
     (if germline (genotypes ! snd p) \<noteq> front then (point_seeds, n)
      else (let somatics = somatic (genotypes ! snd p)
            in if dominant_haplotypes = []
               then dominant_loop genotypes front ps somatics point_seeds n
               else (let buffer = set_difference dominant_haplotypes somatics
                     in if buffer = []
                        then (if n - 1 = 0 then (point_seeds @ [snd p], n - 1)
                              else dominant_loop genotypes front ps buffer
                                     (point_seeds @ [snd p]) (n - 1))
                        else dominant_loop genotypes front ps buffer point_seeds n)))"

text \<open>The second loop: the remaining genotypes of the first selected germline genotype.\<close>

fun remaining_loop ::
    "'h cancer_genotype list \<Rightarrow> 'h list \<Rightarrow> (real \<times> nat) list \<Rightarrow> nat list \<Rightarrow> nat
       \<Rightarrow> nat list \<times> nat" where
  "remaining_loop genotypes front [] point_seeds n = (point_seeds, n)"
| "remaining_loop genotypes front (p # ps) point_seeds n =
     (if germline (genotypes ! snd p) = front \<and> snd p \<notin> set point_seeds
      then (if n - 1 = 0 then (point_seeds @ [snd p], n - 1)
            else remaining_loop genotypes front ps (point_seeds @ [snd p]) (n - 1))
      else remaining_loop genotypes front ps point_seeds n)"

definition generate_targetted_seeds ::
    "('s, 'h::linorder) tumour_priors \<Rightarrow> 'h cancer_genotype list \<Rightarrow> real list \<Rightarrow> nat
       \<Rightarrow> real list list \<Rightarrow> error + real list list" where
  "generate_targetted_seeds priors genotypes approx_log_likelihoods n result =
     (if n = 0 then Inr result
      else if length approx_log_likelihoods < length genotypes \<or> genotypes = []
      then Inl UndefinedBehaviour
      else
       (let result1 = (if n \<ge> length genotypes
                       then result @ map (make_point_seed (length genotypes)) [0..<length genotypes]
                       else result);
            sorted_log_likelihoods =
              std_sort pair_greater (zip approx_log_likelihoods [0..<length genotypes]);
            block_start = hd sorted_log_likelihoods;
            block = block_start # takeWhile (\<lambda>p. fst p = fst block_start) (tl sorted_log_likelihoods);
            sorted_block =
              (if length block \<noteq> 1
               then std_sort (\<lambda>lhs rhs. genotype_prior_model priors (genotypes ! snd lhs)
                                          > genotype_prior_model priors (genotypes ! snd rhs)) block
               else block);
            dummy_log_likelihoods = sorted_block @ drop (length block) sorted_log_likelihoods;
            selected_germline_genotypes = map (\<lambda>p. germline (genotypes ! snd p)) sorted_block
        in case range_seeds_loop genotypes selected_germline_genotypes n result1 of
             Inl e \<Rightarrow> Inl e
           | Inr (result2, n2) \<Rightarrow>
               (if n2 > 0 \<and> somatic_ploidy (hd genotypes) > 1
                then (let front = hd selected_germline_genotypes;
                          (point_seeds1, n3) = dominant_loop genotypes front dummy_log_likelihoods [] [] n2;
                          (point_seeds2, n4) =
                            (if n3 > 0
                             then remaining_loop genotypes front dummy_log_likelihoods point_seeds1 n3
                             else (point_seeds1, n3))
                      in Inr (make_point_seeds (length genotypes) point_seeds2 result2))
                else Inr result2)))"

definition generate_seeds ::
    "('s, 'h::linorder) tumour_priors \<Rightarrow> 's list \<Rightarrow> 'h cancer_genotype list \<Rightarrow> real list \<Rightarrow> nat
       \<Rightarrow> error + real list list" where
  "generate_seeds priors samples genotypes genotype_log_priors max_seeds =
     (if length genotypes \<le> min max_seeds (num_weighted_seeds samples genotypes)
      then Inr (generate_exhaustive_seeds (length genotypes))
      else (case generate_weighted_seeds priors samples genotypes genotype_log_priors of
              Inl e \<Rightarrow> Inl e
            | Inr result \<Rightarrow>
                (if length result < max_seeds
                 then generate_targetted_seeds priors genotypes (last result)
                        (max_seeds - length result) result
                 else Inr result)))"

text \<open>
  \<^verbatim>\<open>std::transform\<close> with a function that can throw or leave the defined behaviour: the
  results in order, up to the first element that has none.
\<close>

fun transform_results :: "(error + 'a) list \<Rightarrow> error + 'a list" where
  "transform_results [] = Inr []"
| "transform_results (r # rs) =
     (case r of
        Inl e \<Rightarrow> Inl e
      | Inr x \<Rightarrow> (case transform_results rs of Inl e \<Rightarrow> Inl e | Inr xs \<Rightarrow> Inr (x # xs)))"

text \<open>
  \<^verbatim>\<open>flatten<K>\<close> of the prior alphas: \<^verbatim>\<open>std::copy_n\<close> reads \<open>K\<close> alphas of the sample, past
  the end of a shorter vector, and \<^verbatim>\<open>alphas.at(sample)\<close> throws for a sample without alphas.
\<close>

definition flatten_alpha :: "nat \<Rightarrow> real list \<Rightarrow> error + real list" where
  "flatten_alpha K alpha =
     (if length alpha < K then Inl UndefinedBehaviour else Inr (take K alpha))"

definition flatten_alphas :: "nat \<Rightarrow> ('s \<rightharpoonup> real list) \<Rightarrow> 's list \<Rightarrow> error + real list list" where
  "flatten_alphas K prior_alphas samples =
     transform_results
       (map (\<lambda>sample. case prior_alphas sample of
                         None \<Rightarrow> Inl OutOfRange
                       | Some alpha \<Rightarrow> flatten_alpha K alpha)
            samples)"

text \<open>
  \<^verbatim>\<open>flatten<K>\<close> of a cancer genotype for a sample. \<^verbatim>\<open>CancerGenotype::ploidy\<close> is defined in
  \<^verbatim>\<open>cancer_genotype.hpp\<close>, outside the sources; it is the parameter \<open>ploidy\<close>. The function
  asserts \<^verbatim>\<open>genotype.ploidy() == K\<close>, and an assertion that fails leaves no result. The
  \<open>K\<close> entries of the result are written from the front, first for the germline and then
  for the somatic haplotypes, past the end of the array when there are more than \<open>K\<close>
  of them; an entry that is not written keeps its initial value \<open>None\<close>. The call operator
  of the likelihood cache is the parameter \<open>haplotype_likelihoods\<close>.
\<close>

definition flatten_genotype ::
    "('h cancer_genotype \<Rightarrow> nat) \<Rightarrow> ('s \<Rightarrow> 'h \<Rightarrow> 'l) \<Rightarrow> nat \<Rightarrow> 'h cancer_genotype \<Rightarrow> 's
       \<Rightarrow> error + 'l option list" where
  "flatten_genotype ploidy haplotype_likelihoods K genotype sample =
     (if ploidy genotype \<noteq> K \<or> K < length (germline genotype) + length (somatic genotype)
      then Inl UndefinedBehaviour
      else Inr (map (\<lambda>haplotype. Some (haplotype_likelihoods sample haplotype))
                  (germline genotype @ somatic genotype)
                @ replicate (K - (length (germline genotype) + length (somatic genotype))) None))"

definition flatten_genotypes ::
    "('h cancer_genotype \<Rightarrow> nat) \<Rightarrow> ('s \<Rightarrow> 'h \<Rightarrow> 'l) \<Rightarrow> nat \<Rightarrow> 'h cancer_genotype list \<Rightarrow> 's
       \<Rightarrow> error + 'l option list list" where
  "flatten_genotypes ploidy haplotype_likelihoods K genotypes sample =
     transform_results
       (map (\<lambda>genotype. flatten_genotype ploidy haplotype_likelihoods K genotype sample)
            genotypes)"

definition flatten_likelihoods ::
    "('h cancer_genotype \<Rightarrow> nat) \<Rightarrow> ('s \<Rightarrow> 'h \<Rightarrow> 'l) \<Rightarrow> nat \<Rightarrow> 'h cancer_genotype list
       \<Rightarrow> 's list \<Rightarrow> error + 'l option list list list" where
  "flatten_likelihoods ploidy haplotype_likelihoods K genotypes samples =
     transform_results
       (map (\<lambda>sample. flatten_genotypes ploidy haplotype_likelihoods K genotypes sample)
            samples)"

text \<open>
  The inferred latents are the genotype posteriors and, for every sample, the posterior
  alphas, with the genotype log priors and the evidence. \<^verbatim>\<open>expand\<close> walks the samples
  together with the alphas of the variational Bayes result, past their end when they are
  fewer than the samples, and inserts them into a map, which keeps the first entry of a
  sample.
\<close>

type_synonym 's inferred_latents = "(real list \<times> ('s \<rightharpoonup> real list)) \<times> real list \<times> real"

definition expand ::
    "'s list \<Rightarrow> real list \<times> real list list \<Rightarrow> real list \<Rightarrow> real \<Rightarrow> error + 's inferred_latents" where
  "expand samples inferred_latents genotype_log_priors evidence =
     (case inferred_latents of
        (genotype_posteriors, posterior_alphas) \<Rightarrow>
          if length posterior_alphas < length samples then Inl UndefinedBehaviour
          else Inr ((genotype_posteriors, map_of (zip samples posterior_alphas)),
                    genotype_log_priors, evidence))"

text \<open>
  The instance \<^verbatim>\<open>run_variational_bayes<K>\<close>. The variational Bayes algorithm that it calls
  is defined in \<^verbatim>\<open>variational_bayes_mixture_model.hpp\<close>, which is not part of the sources; it
  is the parameter \<open>vb\<close>, applied to \<open>K\<close>, the flattened prior alphas, the genotype log
  priors, the flattened likelihoods and the seeds, and it returns the latents with the
  evidence.
\<close>

type_synonym 'l variational_bayes =
  "nat \<Rightarrow> real list list \<Rightarrow> real list \<Rightarrow> 'l option list list list \<Rightarrow> real list list
     \<Rightarrow> (real list \<times> real list list) \<times> real"

definition run_variational_bayes_K ::
    "('h cancer_genotype \<Rightarrow> nat) \<Rightarrow> 'l variational_bayes \<Rightarrow> ('s \<Rightarrow> 'h \<Rightarrow> 'l) \<Rightarrow> nat \<Rightarrow> 's list
       \<Rightarrow> 'h cancer_genotype list \<Rightarrow> ('s \<rightharpoonup> real list) \<Rightarrow> real list \<Rightarrow> real list list
       \<Rightarrow> error + 's inferred_latents" where
  "run_variational_bayes_K ploidy vb haplotype_likelihoods K samples genotypes prior_alphas
       genotype_log_priors seeds =
     (case flatten_alphas K prior_alphas samples of
        Inl e \<Rightarrow> Inl e
      | Inr vb_prior_alphas \<Rightarrow>
          (case flatten_likelihoods ploidy haplotype_likelihoods K genotypes samples of
             Inl e \<Rightarrow> Inl e
           | Inr log_likelihoods \<Rightarrow>
               (case vb K vb_prior_alphas genotype_log_priors log_likelihoods seeds of
                  (latents, evidence) \<Rightarrow> expand samples latents genotype_log_priors evidence)))"

text \<open>
  \<^verbatim>\<open>run_variational_bayes_helper\<close> switches on \<^verbatim>\<open>genotypes.front().ploidy()\<close>.
\<close>

definition run_variational_bayes_helper ::
    "('h cancer_genotype \<Rightarrow> nat) \<Rightarrow> 'l variational_bayes \<Rightarrow> ('s \<Rightarrow> 'h \<Rightarrow> 'l) \<Rightarrow> 's list
       \<Rightarrow> 'h cancer_genotype list \<Rightarrow> ('s \<rightharpoonup> real list) \<Rightarrow> real list \<Rightarrow> real list list
       \<Rightarrow> error + 's inferred_latents" where
  "run_variational_bayes_helper ploidy vb haplotype_likelihoods samples genotypes prior_alphas
       genotype_log_priors seeds =
     (let front_ploidy = ploidy (hd genotypes);
          run_K = (\<lambda>K. run_variational_bayes_K ploidy vb haplotype_likelihoods K samples
                           genotypes prior_alphas genotype_log_priors seeds)
      in if front_ploidy = 2 then run_K 2
         else if front_ploidy = 3 then run_K 3
         else if front_ploidy = 4 then run_K 4
         else if front_ploidy = 5 then run_K 5
         else if front_ploidy = 6 then run_K 6
         else if front_ploidy = 7 then run_K 7
         else if front_ploidy = 8 then run_K 8
         else Inl UnimplementedFeatureError)"

definition run_variational_bayes ::
    "('h cancer_genotype \<Rightarrow> nat) \<Rightarrow> 'l variational_bayes \<Rightarrow> ('s \<Rightarrow> 'h \<Rightarrow> 'l)
       \<Rightarrow> ('s, 'h::linorder) tumour_priors \<Rightarrow> 's list \<Rightarrow> 'h cancer_genotype list \<Rightarrow> nat
       \<Rightarrow> error + 's inferred_latents" where
  "run_variational_bayes ploidy vb haplotype_likelihoods priors samples genotypes max_seeds =
     (let genotype_log_priors = calculate_log_priors priors genotypes
      in case generate_seeds priors samples genotypes genotype_log_priors max_seeds of
           Inl e \<Rightarrow> Inl e
         | Inr seeds \<Rightarrow>
             run_variational_bayes_helper ploidy vb haplotype_likelihoods samples genotypes
               (alphas priors) genotype_log_priors seeds)"

text \<open>
  \<^verbatim>\<open>TumourModel::evaluate\<close> asserts that there are genotypes; the model has no result for
  an empty vector. The overload that takes genotype indices differs only in how the
  genotype log priors are computed and reaches the same dispatch on the ploidy.
\<close>

definition TumourModel_evaluate ::
    "('h cancer_genotype \<Rightarrow> nat) \<Rightarrow> 'l variational_bayes \<Rightarrow> ('s \<Rightarrow> 'h \<Rightarrow> 'l)
       \<Rightarrow> ('s, 'h::linorder) tumour_priors \<Rightarrow> 's list \<Rightarrow> nat \<Rightarrow> 'h cancer_genotype list
       \<Rightarrow> error + 's inferred_latents" where
  "TumourModel_evaluate ploidy vb haplotype_likelihoods priors samples max_seeds genotypes =
     (if genotypes = [] then Inl UndefinedBehaviour
      else run_variational_bayes ploidy vb haplotype_likelihoods priors samples genotypes
             max_seeds)"

text \<open>
  Two readings of \<^verbatim>\<open>CancerGenotype::ploidy\<close>, for evaluating the model. Modelled from the
  spec: the data model of the specification gives \<open>ploidy = germline.ploidy\<close>. In the
  sources, \<^verbatim>\<open>flatten<K>\<close> asserts \<^verbatim>\<open>genotype.ploidy() == K\<close> and fills the \<open>K\<close> entries of
  its result with the germline haplotypes followed by the somatic haplotypes, which makes
  the ploidy the number of all haplotypes of the cancer genotype.
\<close>

definition germline_ploidy :: "'h cancer_genotype \<Rightarrow> nat" where
  "germline_ploidy g = length (germline g)"

definition total_ploidy :: "'h cancer_genotype \<Rightarrow> nat" where
  "total_ploidy g = length (germline g) + somatic_ploidy g"

text \<open>
  A small instance of the collaborators, for evaluating the model: flat likelihoods and
  priors, three prior alphas for every sample, the read likelihoods of a haplotype
  reduced to the haplotype, and a variational Bayes stand-in that returns the log priors
  as the posteriors, the prior alphas as the posterior alphas and the number of mixture
  components \<open>K\<close> it was instantiated with as the evidence.
\<close>

definition flat_priors :: "(nat, nat) tumour_priors" where
  "flat_priors = \<lparr> likelihood_evaluate = (\<lambda>sample genotype. 0),
                    dirichlet_expectation = (\<lambda>i a. 0),
                    alphas = (\<lambda>sample. Some [1, 1, 1]),
                    genotype_prior_model = (\<lambda>genotype. 0) \<rparr>"

definition vb_components :: "nat variational_bayes" where
  "vb_components K vb_prior_alphas genotype_log_priors log_likelihoods seeds =
     ((genotype_log_priors, vb_prior_alphas), real K)"

definition cache_haplotype :: "nat \<Rightarrow> nat \<Rightarrow> nat" where
  "cache_haplotype sample haplotype = haplotype"


definition expects_somatic :: "('s, 'h) tumour_priors \<Rightarrow> 's \<Rightarrow> bool" where
  "expects_somatic priors sample =
     (case alphas priors sample of
        None \<Rightarrow> False
      | Some a \<Rightarrow> dirichlet_expectation priors ((length a + 2 ^ 64 - 1) mod 2 ^ 64) a > 5 / 100)"

definition combined_log_likelihoods ::
    "('s, 'h) tumour_priors \<Rightarrow> 's list \<Rightarrow> 'h cancer_genotype list \<Rightarrow> real list" where
  "combined_log_likelihoods priors samples genotypes =
     map (\<lambda>genotype. \<Sum>sample\<leftarrow>samples.
            likelihood_evaluate priors sample
              (if expects_somatic priors sample then demote genotype else germline genotype))
         genotypes"





section \<open>Phaser: forced phasing\<close>

text \<open>
  A region of the contig of the haplotypes is a half-open interval. A phase region is
  a region with its phase score.
\<close>

record genomic_region =
  region_begin :: nat
  region_end :: nat

definition region_size :: "genomic_region \<Rightarrow> nat" where
  "region_size r = region_end r - region_begin r"

text \<open>
  Modelled from the spec: \<^verbatim>\<open>encompassing_region\<close> of a range of regions, which
  \<^verbatim>\<open>utils/mappable_algorithms.hpp\<close> defines outside the sources: the region from the
  leftmost begin to the rightmost end of the range.
\<close>

definition encompassing_region :: "genomic_region list \<Rightarrow> genomic_region" where
  "encompassing_region rs =
     \<lparr> region_begin = fold min (map region_begin rs) (region_begin (hd rs)),
       region_end = fold max (map region_end rs) (region_end (hd rs)) \<rparr>"

text \<open>
  The loop of \<^verbatim>\<open>force_phase_sample\<close>. The partition iterators are indices into
  \<open>partitions\<close>. The phase score of the genotypes spliced to the partitions from \<open>first\<close>
  up to \<open>last\<close> needs the genotype classes, which are not part of the sources; it is the
  parameter \<open>score\<close>. A range of partitions that is empty has no encompassing region.
\<close>

function force_phase_loop ::
    "(nat \<Rightarrow> nat \<Rightarrow> real) \<Rightarrow> real \<Rightarrow> genomic_region list \<Rightarrow> nat \<Rightarrow> nat
       \<Rightarrow> (genomic_region \<times> real) list \<Rightarrow> error + (genomic_region \<times> real) list" where
  "force_phase_loop score min_phase_score partitions first_partition last_partition result =
     (if first_partition = length partitions then Inr result
      else if \<not> (first_partition < last_partition \<and> last_partition \<le> length partitions)
      then Inl UndefinedBehaviour
      else (let curr_region = encompassing_region
                    (take (last_partition - first_partition) (drop first_partition partitions));
                phase_score = score first_partition last_partition
            in if phase_score \<ge> min_phase_score \<or> last_partition - first_partition = 1
               then force_phase_loop score min_phase_score partitions
                      last_partition (length partitions) (result @ [(curr_region, phase_score)])
               else force_phase_loop score min_phase_score partitions
                      first_partition (last_partition - 1) result))"
  by pat_completeness auto
termination
  by (relation "measures [\<lambda>(score, min_phase_score, partitions, first_partition, last_partition, result).
                              length partitions - first_partition,
                          \<lambda>(score, min_phase_score, partitions, first_partition, last_partition, result).
                              last_partition]") auto

text \<open>
  \<^verbatim>\<open>force_phase_sample\<close>: \<open>full_score\<close> is the phase score of the genotypes over all the
  partitions. Stepping \<^verbatim>\<open>last_partition\<close> back from the end of an empty vector is undefined.
\<close>

definition force_phase_sample ::
    "genomic_region \<Rightarrow> genomic_region list \<Rightarrow> real \<Rightarrow> (nat \<Rightarrow> nat \<Rightarrow> real) \<Rightarrow> real
       \<Rightarrow> error + (genomic_region \<times> real) list" where
  "force_phase_sample region partitions full_score score min_phase_score =
     (if full_score \<ge> min_phase_score then Inr [(region, full_score)]
      else if partitions = [] then Inl UndefinedBehaviour
      else force_phase_loop score min_phase_score partitions 0 (length partitions - 1) [])"

text \<open>
  \<^verbatim>\<open>Phaser::force_phase\<close> for one sample of the posterior map: \<open>max_posterior\<close> is the score
  \<^verbatim>\<open>Phred<double> {Probability {0.0}}\<close> of a sample that is not split.
\<close>

definition force_phase ::
    "genomic_region \<Rightarrow> genomic_region list \<Rightarrow> nat \<Rightarrow> real \<Rightarrow> real \<Rightarrow> (nat \<Rightarrow> nat \<Rightarrow> real) \<Rightarrow> real
       \<Rightarrow> error + (genomic_region \<times> real) list" where
  "force_phase haplotype_region partitions genotype_ploidy max_posterior full_score score
       min_phase_score =
     (if genotype_ploidy = 1 \<or> length partitions = 1 then Inr [(haplotype_region, max_posterior)]
      else force_phase_sample haplotype_region partitions full_score score min_phase_score)"

text \<open>A sample whose genotypes never reach the minimum phase score.\<close>

definition no_phase_score :: "nat \<Rightarrow> nat \<Rightarrow> real" where
  "no_phase_score first_partition last_partition = 0"


text \<open>Regions in contig order that do not overlap, and the total length of phase regions.\<close>

definition ordered_disjoint :: "genomic_region list \<Rightarrow> bool" where
  "ordered_disjoint rs = sorted_wrt (\<lambda>a b. region_end a \<le> region_begin b) rs"

definition phase_regions_length :: "(genomic_region \<times> real) list \<Rightarrow> nat" where
  "phase_regions_length regions = sum_list (map (\<lambda>p. region_size (fst p)) regions)"


section \<open>Haplotype likelihood cache\<close>

text \<open>
  The members of \<^verbatim>\<open>HaplotypeLikelihoodCache\<close>: the map from a haplotype to one vector of
  read log likelihoods for each sample, the map from a sample to its index, and the
  read ranges of the samples, which \<^verbatim>\<open>populate\<close> fills at its start and clears at its end
  (a read range is the list of its reads). A \<^verbatim>\<open>ReadMap\<close> is the list of its entries in
  iteration order; its keys are distinct.
\<close>

record ('s, 'h, 'r) haplotype_likelihood_cache =
  cache :: "'h \<rightharpoonup> real list list"
  sample_indices :: "'s \<rightharpoonup> nat"
  read_iterators :: "'r list list"

definition HaplotypeLikelihoodCache :: "('s, 'h, 'r) haplotype_likelihood_cache" where
  "HaplotypeLikelihoodCache =
     \<lparr> cache = Map.empty, sample_indices = Map.empty, read_iterators = [] \<rparr>"

text \<open>
  \<^verbatim>\<open>sample_indices_.emplace(p.first, i++)\<close> over the entries of the read map: the first entry
  of a sample gives its index.
\<close>

definition set_read_iterators_and_sample_indices ::
    "('s, 'h, 'r) haplotype_likelihood_cache \<Rightarrow> ('s \<times> 'r list) list
       \<Rightarrow> ('s, 'h, 'r) haplotype_likelihood_cache" where
  "set_read_iterators_and_sample_indices c reads =
     c \<lparr> sample_indices := map_of (zip (map fst reads) [0..<length reads]),
         read_iterators := read_iterators c @ map snd reads \<rparr>"

text \<open>
  The vector of one sample for one haplotype. \<^verbatim>\<open>std::transform\<close> walks the reads of the
  sample together with the hashes at \<^verbatim>\<open>read_hash_itr\<close>, which stays at the hashes of the
  first read range; it reads past their end when the sample has more reads than that.
  The pair-HMM behind \<^verbatim>\<open>HaplotypeLikelihoodModel::log_probability\<close> and the k-mer mapping
  are not part of the sources: \<open>log_probability\<close> stands for the likelihood of a read with
  the mapping positions that the given read hashes select on the haplotype.
\<close>

definition sample_log_likelihoods ::
    "('h \<Rightarrow> 'r \<Rightarrow> 'k \<Rightarrow> real) \<Rightarrow> 'h \<Rightarrow> 'k list \<Rightarrow> 'r list \<Rightarrow> error + real list" where
  "sample_log_likelihoods log_probability haplotype first_read_hashes sample_reads =
     (if length first_read_hashes < length sample_reads then Inl UndefinedBehaviour
      else Inr (map2 (\<lambda>read read_hashes. log_probability haplotype read read_hashes)
                  sample_reads first_read_hashes))"

fun haplotype_log_likelihoods ::
    "('h \<Rightarrow> 'r \<Rightarrow> 'k \<Rightarrow> real) \<Rightarrow> 'h \<Rightarrow> 'k list \<Rightarrow> 'r list list \<Rightarrow> error + real list list" where
  "haplotype_log_likelihoods log_probability haplotype first_read_hashes [] = Inr []"
| "haplotype_log_likelihoods log_probability haplotype first_read_hashes (t # ts) =
     (case sample_log_likelihoods log_probability haplotype first_read_hashes t of
        Inl e \<Rightarrow> Inl e
      | Inr v \<Rightarrow>
          (case haplotype_log_likelihoods log_probability haplotype first_read_hashes ts of
             Inl e \<Rightarrow> Inl e
           | Inr vs \<Rightarrow> Inr (v # vs)))"

text \<open>
  The loop over the haplotypes. The entry of a haplotype has \<open>num_samples\<close> vectors, and
  the loop over the read ranges writes one of them for each range; with more ranges than
  samples it writes past the end of the entry.
\<close>

fun populate_haplotypes ::
    "('h \<Rightarrow> 'r \<Rightarrow> 'k \<Rightarrow> real) \<Rightarrow> nat \<Rightarrow> 'k list list \<Rightarrow> 'r list list \<Rightarrow> 'h list
       \<Rightarrow> ('h \<rightharpoonup> real list list) \<Rightarrow> error + ('h \<rightharpoonup> real list list)" where
  "populate_haplotypes log_probability num_samples read_hashes ranges [] m = Inr m"
| "populate_haplotypes log_probability num_samples read_hashes ranges (haplotype # haplotypes) m =
     (if num_samples < length ranges then Inl UndefinedBehaviour
      else (case haplotype_log_likelihoods log_probability haplotype
                   (if read_hashes = [] then [] else hd read_hashes) ranges of
              Inl e \<Rightarrow> Inl e
            | Inr vs \<Rightarrow>
                populate_haplotypes log_probability num_samples read_hashes ranges haplotypes
                  (m(haplotype \<mapsto> vs @ replicate (num_samples - length ranges) []))))"

text \<open>
  \<^verbatim>\<open>populate\<close>. The largest haplotype is found with \<^verbatim>\<open>std::max_element\<close>, whose result is
  dereferenced: there is no result for an empty vector of haplotypes.
\<close>

definition populate ::
    "('r \<Rightarrow> 'k) \<Rightarrow> ('h \<Rightarrow> 'r \<Rightarrow> 'k \<Rightarrow> real) \<Rightarrow> ('s, 'h, 'r) haplotype_likelihood_cache
       \<Rightarrow> ('s \<times> 'r list) list \<Rightarrow> 'h list \<Rightarrow> error + ('s, 'h, 'r) haplotype_likelihood_cache" where
  "populate compute_kmer_hashes log_probability c reads haplotypes =
     (let c1 = set_read_iterators_and_sample_indices (c \<lparr> cache := Map.empty \<rparr>) reads;
          num_samples = length reads;
          read_hashes = map (map compute_kmer_hashes) (read_iterators c1)
      in if haplotypes = [] then Inl UndefinedBehaviour
         else (case populate_haplotypes log_probability num_samples read_hashes
                      (read_iterators c1) haplotypes (cache c1) of
                 Inl e \<Rightarrow> Inl e
               | Inr m \<Rightarrow> Inr (c1 \<lparr> cache := m, read_iterators := [] \<rparr>)))"

text \<open>
  \<^verbatim>\<open>log_likelihoods\<close>: both \<^verbatim>\<open>at\<close> throw for a key that is absent, and the index operator
  has no result outside the vector.
\<close>

definition log_likelihoods ::
    "('s, 'h, 'r) haplotype_likelihood_cache \<Rightarrow> 's \<Rightarrow> 'h \<Rightarrow> error + real list" where
  "log_likelihoods c sample haplotype =
     (case cache c haplotype of
        None \<Rightarrow> Inl OutOfRange
      | Some vs \<Rightarrow>
          (case sample_indices c sample of
             None \<Rightarrow> Inl OutOfRange
           | Some i \<Rightarrow> if i < length vs then Inr (vs ! i) else Inl UndefinedBehaviour))"


text \<open>
  Stand-ins for the k-mer hashing and the pair-HMM, for evaluating the cache on reads and
  haplotypes given as strings: a read that equals the haplotype has the log
  likelihood 0, any other read \<open>ln (1 / 2)\<close>.
\<close>

definition length_hashes :: "string \<Rightarrow> nat" where
  "length_hashes read = length read"

definition equal_log_probability :: "string \<Rightarrow> string \<Rightarrow> nat \<Rightarrow> real" where
  "equal_log_probability haplotype read read_hashes = (if read = haplotype then 0 else ln (1 / 2))"


section \<open>Genotype likelihood model of a fixed ploidy\<close>

text \<open>
  Modelled from the spec: the members of \<^verbatim>\<open>Genotype\<close> that the model calls, which
  \<^verbatim>\<open>genotype.hpp\<close> defines outside the sources. A genotype is a multiset of haplotypes of
  the size of the ploidy; its zygosity is the number of its distinct haplotypes, it is
  homozygous when that number is one, and \<open>count\<close> gives how often it holds a haplotype.
\<close>

definition zygosity :: "'h list \<Rightarrow> nat" where
  "zygosity genotype = length (remdups genotype)"

definition is_homozygous :: "'h list \<Rightarrow> bool" where
  "is_homozygous genotype = (zygosity genotype = 1)"

definition genotype_count :: "'h list \<Rightarrow> 'h \<Rightarrow> nat" where
  "genotype_count genotype haplotype = count_list genotype haplotype"

definition genotype_at :: "'h list \<Rightarrow> nat \<Rightarrow> error + 'h" where
  "genotype_at genotype i =
     (if i < length genotype then Inr (genotype ! i) else Inl UndefinedBehaviour)"

definition bind_error :: "error + 'a \<Rightarrow> ('a \<Rightarrow> error + 'b) \<Rightarrow> error + 'b" where
  "bind_error r f = (case r of Inl e \<Rightarrow> Inl e | Inr x \<Rightarrow> f x)"

text \<open>
  The members of \<^verbatim>\<open>FixedPloidyGenotypeLikelihoodModel\<close>. The constructor stores
  \<^verbatim>\<open>std::log(ploidy)\<close>; the ploidy is positive.
\<close>

record ('s, 'h, 'r) fixed_ploidy_model =
  haplotype_likelihoods :: "('s, 'h, 'r) haplotype_likelihood_cache"
  model_ploidy :: nat
  ln_ploidy :: real

definition FixedPloidyGenotypeLikelihoodModel ::
    "nat \<Rightarrow> ('s, 'h, 'r) haplotype_likelihood_cache \<Rightarrow> ('s, 'h, 'r) fixed_ploidy_model" where
  "FixedPloidyGenotypeLikelihoodModel ploidy_arg haplotype_likelihoods_arg =
     \<lparr> haplotype_likelihoods = haplotype_likelihoods_arg,
       model_ploidy = ploidy_arg,
       ln_ploidy = ln (real ploidy_arg) \<rparr>"

text \<open>
  The log likelihoods of the haplotype at position \<open>i\<close> of the genotype, for the sample.
\<close>

definition haplotype_lls ::
    "('s, 'h, 'r) fixed_ploidy_model \<Rightarrow> 's \<Rightarrow> 'h list \<Rightarrow> nat \<Rightarrow> error + real list" where
  "haplotype_lls m sample genotype i =
     bind_error (genotype_at genotype i) (log_likelihoods (haplotype_likelihoods m) sample)"

text \<open>
  \<^verbatim>\<open>std::inner_product\<close> with \<^verbatim>\<open>std::plus\<close> and a binary operation, from 0: it walks the
  second vector along the first one and has no result when the second one is shorter.
\<close>

definition inner_product :: "(real \<Rightarrow> real \<Rightarrow> real) \<Rightarrow> real list \<Rightarrow> real list \<Rightarrow> error + real" where
  "inner_product f xs ys =
     (if length ys < length xs then Inl UndefinedBehaviour
      else Inr (sum_list (map2 f xs ys)))"

definition log_likelihood_haploid ::
    "('s, 'h, 'r) fixed_ploidy_model \<Rightarrow> 's \<Rightarrow> 'h list \<Rightarrow> error + real" where
  "log_likelihood_haploid m sample genotype =
     bind_error (haplotype_lls m sample genotype 0) (\<lambda>log_likelihoods0. Inr (sum_list log_likelihoods0))"

definition log_likelihood_diploid ::
    "('s, 'h, 'r) fixed_ploidy_model \<Rightarrow> 's \<Rightarrow> 'h list \<Rightarrow> error + real" where
  "log_likelihood_diploid m sample genotype =
     (if is_homozygous genotype
      then bind_error (haplotype_lls m sample genotype 0)
             (\<lambda>log_likelihoods0. Inr (sum_list log_likelihoods0))
      else bind_error (haplotype_lls m sample genotype 0) (\<lambda>log_likelihoods1.
           bind_error (haplotype_lls m sample genotype 1) (\<lambda>log_likelihoods2.
             inner_product (\<lambda>a b. log_sum_exp [a, b] - ln_ploidy m)
               log_likelihoods1 log_likelihoods2)))"

text \<open>
  \<^verbatim>\<open>log_likelihood_triploid\<close>. In the branch for three distinct haplotypes the source
  takes \<^verbatim>\<open>log_likelihoods3\<close> from \<^verbatim>\<open>genotype[1]\<close>, as it does for \<^verbatim>\<open>log_likelihoods2\<close>.
\<close>

definition log_likelihood_triploid ::
    "('s, 'h, 'r) fixed_ploidy_model \<Rightarrow> 's \<Rightarrow> 'h list \<Rightarrow> error + real" where
  "log_likelihood_triploid m sample genotype =
     (if is_homozygous genotype
      then bind_error (haplotype_lls m sample genotype 0)
             (\<lambda>log_likelihoods0. Inr (sum_list log_likelihoods0))
      else bind_error (haplotype_lls m sample genotype 0) (\<lambda>log_likelihoods1.
           bind_error (haplotype_lls m sample genotype 1) (\<lambda>log_likelihoods2.
             if zygosity genotype = 3
             then bind_error (haplotype_lls m sample genotype 1) (\<lambda>log_likelihoods3.
                    if length log_likelihoods2 < length log_likelihoods1
                       \<or> length log_likelihoods3 < length log_likelihoods1
                    then Inl UndefinedBehaviour
                    else Inr (sum_list (map (\<lambda>i. log_sum_exp [log_likelihoods1 ! i,
                                                               log_likelihoods2 ! i,
                                                               log_likelihoods3 ! i] - ln_ploidy m)
                                          [0..<length log_likelihoods1])))
             else (case genotype_at genotype 0 of
                     Inl e \<Rightarrow> Inl e
                   | Inr haplotype0 \<Rightarrow>
                       if genotype_count genotype haplotype0 = 1
                       then inner_product (\<lambda>a b. log_sum_exp [a, 2 * b] - ln_ploidy m)
                              log_likelihoods1 log_likelihoods2
                       else inner_product (\<lambda>a b. log_sum_exp [2 * a, b] - ln_ploidy m)
                              log_likelihoods1 log_likelihoods2))))"

text \<open>All the lookups of a list succeed, or the first failure is the result.\<close>

fun all_results :: "(error + 'a) list \<Rightarrow> error + 'a list" where
  "all_results [] = Inr []"
| "all_results (r # rs) =
     bind_error r (\<lambda>x. bind_error (all_results rs) (\<lambda>xs. Inr (x # xs)))"

text \<open>
  \<^verbatim>\<open>log_likelihood_polyploid\<close>: the buffer \<^verbatim>\<open>tmp\<close> has one entry for each haplotype of the
  ploidy, written from the haplotypes of the genotype for each read.
\<close>

definition log_likelihood_polyploid ::
    "('s, 'h, 'r) fixed_ploidy_model \<Rightarrow> 's \<Rightarrow> 'h list \<Rightarrow> error + real" where
  "log_likelihood_polyploid m sample genotype =
     (if is_homozygous genotype
      then bind_error (haplotype_lls m sample genotype 0)
             (\<lambda>log_likelihoods0. Inr (sum_list log_likelihoods0))
      else bind_error (all_results (map (log_likelihoods (haplotype_likelihoods m) sample) genotype))
             (\<lambda>lls. if lls = [] \<or> model_ploidy m < length lls
                        \<or> list_ex (\<lambda>l. length l < length (hd lls)) lls
                     then Inl UndefinedBehaviour
                     else Inr (sum_list (map (\<lambda>i. log_sum_exp
                                                  (map (\<lambda>l. l ! i) lls
                                                   @ replicate (model_ploidy m - length lls) 0)
                                                - ln_ploidy m)
                                           [0..<length (hd lls)]))))"

definition log_likelihood ::
    "('s, 'h, 'r) fixed_ploidy_model \<Rightarrow> 's \<Rightarrow> 'h list \<Rightarrow> error + real" where
  "log_likelihood m sample genotype =
     (if model_ploidy m = 1 then log_likelihood_haploid m sample genotype
      else if model_ploidy m = 2 then log_likelihood_diploid m sample genotype
      else if model_ploidy m = 3 then log_likelihood_triploid m sample genotype
      else log_likelihood_polyploid m sample genotype)"

text \<open>
  The likelihood of a triploid genotype as the specification and the comment above
  \<^verbatim>\<open>log_likelihood\<close> give it: the sum over the reads of
  \<open>ln ((P(r|h0) + P(r|h1) + P(r|h2)) / 3)\<close>.
\<close>

definition triploid_formula ::
    "('s, 'h, 'r) haplotype_likelihood_cache \<Rightarrow> 's \<Rightarrow> 'h list \<Rightarrow> error + real" where
  "triploid_formula c sample genotype =
     bind_error (bind_error (genotype_at genotype 0) (log_likelihoods c sample)) (\<lambda>l0.
     bind_error (bind_error (genotype_at genotype 1) (log_likelihoods c sample)) (\<lambda>l1.
     bind_error (bind_error (genotype_at genotype 2) (log_likelihoods c sample)) (\<lambda>l2.
       Inr (sum_list (map (\<lambda>i. ln ((exp (l0 ! i) + exp (l1 ! i) + exp (l2 ! i)) / 3))
                       [0..<length l0])))))"

text \<open>
  A cache for one sample with one read \<open>ACGT\<close> and three haplotypes, as \<^verbatim>\<open>populate\<close> fills
  it with the stand-in likelihoods.
\<close>

definition triallelic_cache :: "(string, string, string) haplotype_likelihood_cache" where
  "triallelic_cache =
     \<lparr> cache = [''ACAT'' \<mapsto> [[ln (1 / 2)]], ''ACGT'' \<mapsto> [[0]], ''TCGT'' \<mapsto> [[ln (1 / 2)]]],
       sample_indices = [''sample'' \<mapsto> 0],
       read_iterators = [] \<rparr>"


section \<open>Single read model\<close>

text \<open>
  The parameter records of the pair-HMM of \<^verbatim>\<open>pair_hmm.hpp\<close>, with the members that
  \<^verbatim>\<open>SingleReadModel::log_probability\<close> sets; value initialisation leaves the others zero.
\<close>

record random_model =
  target_emission_probability :: real
  query_emission_probability :: real
  target_end_probability :: real
  query_end_probability :: real

record match_model =
  match_probability :: real
  gap_open_probability :: real
  gap_extend_probability :: real
  end_probability :: real

record aligned_read =
  read_region :: genomic_region
  read_sequence :: string
  read_qualities :: "nat list"

record haplotype =
  hap_region :: genomic_region
  hap_sequence :: string

text \<open>
  Modelled from the spec: the region algebra of \<^verbatim>\<open>mappable.hpp\<close>, which is not part of
  the sources, on half-open intervals of one contig.
\<close>

definition overlaps :: "genomic_region \<Rightarrow> genomic_region \<Rightarrow> bool" where
  "overlaps a b = (max (region_begin a) (region_begin b) < min (region_end a) (region_end b))"

definition get_overlapped :: "genomic_region \<Rightarrow> genomic_region \<Rightarrow> genomic_region" where
  "get_overlapped a b = \<lparr> region_begin = max (region_begin a) (region_begin b),
                            region_end = min (region_end a) (region_end b) \<rparr>"

definition get_encompassing :: "genomic_region \<Rightarrow> genomic_region \<Rightarrow> genomic_region" where
  "get_encompassing a b = \<lparr> region_begin = min (region_begin a) (region_begin b),
                              region_end = max (region_end a) (region_end b) \<rparr>"

definition begins_before :: "genomic_region \<Rightarrow> genomic_region \<Rightarrow> bool" where
  "begins_before a b = (region_begin a < region_begin b)"

definition ends_before :: "genomic_region \<Rightarrow> genomic_region \<Rightarrow> bool" where
  "ends_before a b = (region_end a < region_end b)"

definition get_left_overhang :: "genomic_region \<Rightarrow> genomic_region \<Rightarrow> genomic_region" where
  "get_left_overhang a b =
     (if begins_before a b then \<lparr> region_begin = region_begin a, region_end = region_begin b \<rparr>
      else \<lparr> region_begin = region_begin a, region_end = region_begin a \<rparr>)"

definition get_right_overhang :: "genomic_region \<Rightarrow> genomic_region \<Rightarrow> genomic_region" where
  "get_right_overhang a b =
     (if ends_before b a then \<lparr> region_begin = region_end b, region_end = region_end a \<rparr>
      else \<lparr> region_begin = region_end a, region_end = region_end a \<rparr>)"

text \<open>
  The three models that \<^verbatim>\<open>log_probability\<close> sets up for a read and a haplotype before it
  calls the pair-HMM.
\<close>

definition pair_hmm_models ::
    "aligned_read \<Rightarrow> haplotype \<Rightarrow> random_model \<times> match_model \<times> random_model" where
  "pair_hmm_models read hap =
     (let lhs_random = \<lparr> target_emission_probability = 25 / 100,
                          query_emission_probability = 25 / 100,
                          target_end_probability = 0, query_end_probability = 0 \<rparr>;
          match = \<lparr> match_probability = 25 / 100, gap_open_probability = 15 / 1000,
                     gap_extend_probability = 20 / 1000, end_probability = 0 \<rparr>;
          rhs_random = \<lparr> target_emission_probability = 25 / 100,
                          query_emission_probability = 25 / 100,
                          target_end_probability = 0, query_end_probability = 0 \<rparr>;
          max_match_end_prob =
            1 - max (2 * gap_open_probability match) (gap_extend_probability match)
      in if overlaps (read_region read) (hap_region hap)
         then (let overlapped_region = get_overlapped (read_region read) (hap_region hap);
                   covered_region = get_encompassing (read_region read) (hap_region hap);
                   left = real (region_size (get_left_overhang covered_region overlapped_region));
                   right = real (region_size (get_right_overhang covered_region overlapped_region))
               in ((if begins_before (read_region read) (hap_region hap)
                    then lhs_random \<lparr> target_end_probability := 99 / 100,
                                      query_end_probability := 1 / (left + 1) \<rparr>
                    else lhs_random \<lparr> target_end_probability := 1 / (left + 1),
                                      query_end_probability := 99 / 100 \<rparr>),
                   match \<lparr> end_probability :=
                             min (1 / (real (region_size overlapped_region) + 1)) max_match_end_prob \<rparr>,
                   (if ends_before (read_region read) (hap_region hap)
                    then rhs_random \<lparr> target_end_probability := 1 / (right + 1),
                                      query_end_probability := 99 / 100 \<rparr>
                    else rhs_random \<lparr> target_end_probability := 99 / 100,
                                      query_end_probability := 1 / (right + 1) \<rparr>)))
         else (lhs_random \<lparr> target_end_probability :=
                               1 / (real (region_size (hap_region hap)) + 1),
                             query_end_probability :=
                               1 / (real (region_size (read_region read)) + 1) \<rparr>,
               match \<lparr> end_probability := max_match_end_prob \<rparr>,
               rhs_random \<lparr> target_end_probability := 99 / 100,
                             query_end_probability := 99 / 100 \<rparr>))"

text \<open>
  The cache of \<^verbatim>\<open>SingleReadModel\<close>, a map from reads to maps from haplotypes to values,
  with its member functions.
\<close>

type_synonym single_read_cache = "aligned_read \<rightharpoonup> (haplotype \<rightharpoonup> real)"

definition SingleReadModel :: single_read_cache where
  "SingleReadModel = Map.empty"

definition is_cached :: "single_read_cache \<Rightarrow> aligned_read \<Rightarrow> haplotype \<Rightarrow> bool" where
  "is_cached read_cache read hap =
     (case read_cache read of None \<Rightarrow> False | Some m \<Rightarrow> m hap \<noteq> None)"

definition get_cached :: "single_read_cache \<Rightarrow> aligned_read \<Rightarrow> haplotype \<Rightarrow> real" where
  "get_cached read_cache read hap = the (the (read_cache read) hap)"

definition cache_value ::
    "single_read_cache \<Rightarrow> aligned_read \<Rightarrow> haplotype \<Rightarrow> real \<Rightarrow> single_read_cache" where
  "cache_value read_cache read hap v =
     (let m = (case read_cache read of None \<Rightarrow> Map.empty | Some m \<Rightarrow> m)
      in read_cache(read \<mapsto> (if m hap = None then m(hap \<mapsto> v) else m)))"

definition clear_cache :: "single_read_cache \<Rightarrow> single_read_cache" where
  "clear_cache read_cache = Map.empty"

text \<open>
  \<^verbatim>\<open>log_probability\<close>. The three-state pair-HMM \<^verbatim>\<open>nuc_log_viterbi_local\<close> is defined in
  \<^verbatim>\<open>pair_hmm.hpp\<close>, outside the sources; it is the parameter \<open>viterbi\<close>, applied to the
  target and query sequences, the qualities and the three models.
\<close>

definition log_probability ::
    "(string \<Rightarrow> string \<Rightarrow> nat list \<Rightarrow> random_model \<Rightarrow> match_model \<Rightarrow> random_model \<Rightarrow> real)
       \<Rightarrow> aligned_read \<Rightarrow> haplotype \<Rightarrow> single_read_cache \<Rightarrow> real \<times> single_read_cache" where
  "log_probability viterbi read hap read_cache =
     (if is_cached read_cache read hap then (get_cached read_cache read hap, read_cache)
      else (let (lhs_random, match, rhs_random) = pair_hmm_models read hap;
                joint_log_probability =
                  viterbi (hap_sequence hap) (read_sequence read) (read_qualities read)
                    lhs_random match rhs_random;
                conditional_log_probability =
                  joint_log_probability
                    - real (length (hap_sequence hap))
                      * ln (target_emission_probability lhs_random)
            in (conditional_log_probability,
                cache_value read_cache read hap conditional_log_probability)))"

text \<open>
  The cache after a sequence of calls of \<^verbatim>\<open>log_probability\<close> on a new model.
\<close>

definition cache_after ::
    "(string \<Rightarrow> string \<Rightarrow> nat list \<Rightarrow> random_model \<Rightarrow> match_model \<Rightarrow> random_model \<Rightarrow> real)
       \<Rightarrow> (aligned_read \<times> haplotype) list \<Rightarrow> single_read_cache" where
  "cache_after viterbi calls =
     foldl (\<lambda>read_cache (read, hap). snd (log_probability viterbi read hap read_cache)) SingleReadModel calls"

text \<open>
  The conditional log likelihood of the claim: the joint log-Viterbi score of the three
  models minus the length of the haplotype times \<open>ln (1 / 4)\<close>.
\<close>

definition conditional_log_viterbi ::
    "(string \<Rightarrow> string \<Rightarrow> nat list \<Rightarrow> random_model \<Rightarrow> match_model \<Rightarrow> random_model \<Rightarrow> real)
       \<Rightarrow> aligned_read \<Rightarrow> haplotype \<Rightarrow> real" where
  "conditional_log_viterbi viterbi read hap =
     viterbi (hap_sequence hap) (read_sequence read) (read_qualities read)
       (fst (pair_hmm_models read hap)) (fst (snd (pair_hmm_models read hap)))
       (snd (snd (pair_hmm_models read hap)))
     - real (length (hap_sequence hap)) * ln (1 / 4)"


text \<open>The invariant of the cache: every cached value is the value of its read and haplotype.\<close>

definition cache_ok ::
    "(string \<Rightarrow> string \<Rightarrow> nat list \<Rightarrow> random_model \<Rightarrow> match_model \<Rightarrow> random_model \<Rightarrow> real)
       \<Rightarrow> single_read_cache \<Rightarrow> bool" where
  "cache_ok viterbi read_cache \<longleftrightarrow>
     (\<forall>read hap m v. read_cache read = Some m \<longrightarrow> m hap = Some v \<longrightarrow> v = conditional_log_viterbi viterbi read hap)"

text \<open>
  A stand-in for the pair-HMM, for evaluating the model on a read and a haplotype: every
  base of the query is scored with the match probability.
\<close>

definition match_viterbi ::
    "string \<Rightarrow> string \<Rightarrow> nat list \<Rightarrow> random_model \<Rightarrow> match_model \<Rightarrow> random_model \<Rightarrow> real" where
  "match_viterbi target query qualities lhs_random match rhs_random =
     real (length query) * ln (match_probability match)"

definition read_ACGT :: aligned_read where
  "read_ACGT = \<lparr> read_region = \<lparr> region_begin = 10, region_end = 14 \<rparr>,
                 read_sequence = ''ACGT'', read_qualities = [30, 30, 30, 30] \<rparr>"

definition haplotype_ACGTAC :: haplotype where
  "haplotype_ACGTAC = \<lparr> hap_region = \<lparr> region_begin = 10, region_end = 16 \<rparr>,
                        hap_sequence = ''ACGTAC'' \<rparr>"


section \<open>Coalescent model: the segregating-sites probability\<close>

text \<open>
  \<^verbatim>\<open>double\<close> is modelled as \<open>real\<close> and \<^verbatim>\<open>std::complex<double>\<close> as \<open>complex\<close>: rounding is
  left out where it only perturbs a result. The two accumulations of the alternating
  summands are different. Their summands cancel, and the rounded sum can differ from the
  exact sum in its sign, so that its logarithm is not a number where the logarithm of
  the exact sum is one. The additions of these two accumulations are therefore
  parameters of the model; \<open>exact_arithmetic\<close> is the instance with the additions of the
  real and of the complex numbers.
\<close>

record arithmetic =
  plus_real :: "real \<Rightarrow> real \<Rightarrow> real"
  plus_complex :: "complex \<Rightarrow> complex \<Rightarrow> complex"

definition exact_arithmetic :: arithmetic where
  "exact_arithmetic = \<lparr> plus_real = (\<lambda>a b. a + b), plus_complex = (\<lambda>a b. a + b) \<rparr>"

text \<open>
  \<^verbatim>\<open>powm1\<close> and \<^verbatim>\<open>binom\<close>; \<^verbatim>\<open>boost::math::binomial_coefficient\<close> is the binomial coefficient.
\<close>

definition powm1 :: "nat \<Rightarrow> real" where
  "powm1 i = (if i mod 2 = 0 then 1 else - 1)"

definition binom :: "nat \<Rightarrow> nat \<Rightarrow> real" where
  "binom n k = real (n choose k)"

text \<open>
  Modelled from the spec: \<^verbatim>\<open>maths::log_factorial\<close> of \<^verbatim>\<open>utils/maths.hpp\<close>, which is not part
  of the sources: the logarithm of the factorial.
\<close>

definition log_factorial :: "nat \<Rightarrow> real" where
  "log_factorial n = ln (fact n)"

definition log_binom :: "nat \<Rightarrow> nat \<Rightarrow> real" where
  "log_binom n k = log_factorial n - (log_factorial k + log_factorial (n - k))"

text \<open>The summand of the loop of \<^verbatim>\<open>coalescent_real_space\<close> for the index \<open>i\<close>.\<close>

definition real_space_term :: "nat \<Rightarrow> nat \<Rightarrow> real \<Rightarrow> nat \<Rightarrow> real" where
  "real_space_term n k theta i =
     powm1 i * binom (n - 1) (i - 1) * (real (i - 1) / (theta + real i - 1))
       * (theta / (theta + real i - 1)) ^ k"

text \<open>
  \<^verbatim>\<open>coalescent_real_space\<close>: the loop adds the summands for \<open>i = 2, \<dots>, n\<close> to \<^verbatim>\<open>result\<close>, which
  starts at zero, and the logarithm of \<^verbatim>\<open>result\<close> is returned.
\<close>

definition coalescent_real_space :: "arithmetic \<Rightarrow> nat \<Rightarrow> nat \<Rightarrow> real \<Rightarrow> real option" where
  "coalescent_real_space ar n k theta =
     std_log (foldl (\<lambda>result i. plus_real ar result (real_space_term n k theta i)) 0 [2..<Suc n])"

text \<open>
  \<^verbatim>\<open>std::log\<close> of a complex number: the logarithm of the modulus and the argument in
  \<open>(-pi, pi]\<close>. \<^verbatim>\<open>std::max_element\<close> with the comparison of the real parts returns the first
  of the elements with the largest real part.
\<close>

definition complex_log :: "complex \<Rightarrow> complex" where
  "complex_log z = Complex (ln (cmod z)) (Arg z)"

definition max_element_real :: "complex list \<Rightarrow> complex" where
  "max_element_real logs = foldl (\<lambda>largest x. if Re largest < Re x then x else largest)
                             (hd logs) (tl logs)"

text \<open>
  \<^verbatim>\<open>complex_log_sum_exp\<close>: no result for an empty range, whose largest element does not
  exist, nor when the sum of the exponentials is zero, which has no finite logarithm.
\<close>

definition complex_log_sum_exp :: "arithmetic \<Rightarrow> complex list \<Rightarrow> complex option" where
  "complex_log_sum_exp ar logs =
     (if logs = [] then None
      else (let mx = max_element_real logs;
                s = foldl (\<lambda>curr x. plus_complex ar curr (exp (x - mx))) 0 logs
            in if s = 0 then None else Some (mx + complex_log s)))"

text \<open>The entry of \<^verbatim>\<open>tmp\<close> that the loop of \<^verbatim>\<open>coalescent_log_space\<close> computes for \<open>i\<close>.\<close>

definition log_space_term :: "nat \<Rightarrow> nat \<Rightarrow> real \<Rightarrow> nat \<Rightarrow> complex option" where
  "log_space_term n k theta i =
     do {
       l1 \<leftarrow> std_log (real (i - 1) / (theta + real i - 1));
       l2 \<leftarrow> std_log (theta / (theta + real i - 1));
       Some (complex_log (- 1) * of_nat i
             + of_real (log_binom (n - 1) (i - 1))
             + of_real l1
             + of_real (real k * l2))
     }"

text \<open>
  \<^verbatim>\<open>coalescent_log_space\<close>, for \<open>n\<close> haplotypes with \<open>1 \<le> n\<close>: the length \<open>n - 1\<close> of \<^verbatim>\<open>tmp\<close>
  is unsigned and wraps around at \<open>n = 0\<close>, where the model has no result.
\<close>

definition coalescent_log_space :: "arithmetic \<Rightarrow> nat \<Rightarrow> nat \<Rightarrow> real \<Rightarrow> real option" where
  "coalescent_log_space ar n k theta =
     do {
       tmp \<leftarrow> those (map (log_space_term n k theta) [2..<Suc n]);
       r \<leftarrow> complex_log_sum_exp ar tmp;
       Some (Re r)
     }"

definition coalescent :: "arithmetic \<Rightarrow> nat \<Rightarrow> nat \<Rightarrow> real \<Rightarrow> real option" where
  "coalescent ar n k theta =
     (if k \<le> 80 then coalescent_real_space ar n k theta else coalescent_log_space ar n k theta)"

text \<open>The overload of \<^verbatim>\<open>coalescent\<close> for SNP and indel sites.\<close>

definition coalescent_snp_indel ::
    "arithmetic \<Rightarrow> nat \<Rightarrow> nat \<Rightarrow> nat \<Rightarrow> real \<Rightarrow> real \<Rightarrow> real option" where
  "coalescent_snp_indel ar n k_snp k_indel theta_snp theta_indel =
     (let theta = theta_snp + theta_indel;
          k_tot = k_snp + k_indel
      in do {
           result \<leftarrow> coalescent ar n k_tot theta;
           snp \<leftarrow> std_log (theta_snp / theta);
           indel \<leftarrow> std_log (theta_indel / theta);
           Some (result + real k_snp * snp + real k_indel * indel + log_binom k_tot k_snp)
         })"

text \<open>
  The sum of the specification, whose logarithm is \<open>C(n, k, theta)\<close>: the probability of
  \<open>k\<close> segregating sites among \<open>n\<close> haplotypes under the coalescent.
\<close>

definition coalescent_sum :: "nat \<Rightarrow> nat \<Rightarrow> real \<Rightarrow> real" where
  "coalescent_sum n k theta =
     (\<Sum>i = 2..n. (- 1) ^ i * real ((n - 1) choose (i - 1))
                    * (real (i - 1) / (theta + real (i - 1)))
                    * (theta / (theta + real (i - 1))) ^ k)"

text \<open>
  The same sum over \<open>j = i - 1\<close>, for \<open>m = n - 1\<close>; the summand for \<open>j = 0\<close> is zero.
\<close>

definition segregating_sum :: "real \<Rightarrow> nat \<Rightarrow> nat \<Rightarrow> real" where
  "segregating_sum theta m k =
     (\<Sum>j\<le>m. (- 1) ^ Suc j * real (m choose j) * (real j / (theta + real j))
               * (theta / (theta + real j)) ^ k)"


section \<open>Coalescent model: evaluation\<close>










text \<open>
  The invariants of the two result caches: an entry of the table for no indel site is
  the result for its indices and the heterozygosities of the model, and an entry of the
  cache for indel sites is the result for its key and an indel heterozygosity that is
  at least the one of the model.
\<close>

definition zero_cache_valid :: "arithmetic \<Rightarrow> coalescent_model \<Rightarrow> bool" where
  "zero_cache_valid ar m \<longleftrightarrow>
     (\<forall>n k v. n < length (k_indel_zero_result_cache m)
          \<longrightarrow> k < length (k_indel_zero_result_cache m ! n)
          \<longrightarrow> k_indel_zero_result_cache m ! n ! k = Some v
          \<longrightarrow> v = coalescent_snp_indel ar n k 0 (snp_heterozygosity (params m))
                    (indel_heterozygosity (params m)))"

definition pos_cache_valid :: "arithmetic \<Rightarrow> coalescent_model \<Rightarrow> bool" where
  "pos_cache_valid ar m \<longleftrightarrow>
     (\<forall>k_snp k_indel n max_offset v.
          k_indel_pos_result_cache m (k_snp, k_indel, n, max_offset) = Some v
          \<longrightarrow> (\<exists>h \<ge> indel_heterozygosity (params m).
                 v = coalescent_snp_indel ar n k_snp k_indel (snp_heterozygosity (params m)) h))"

text \<open>
  A model over a reference of six bases whose last four are one homopolymer run, with
  an indel site over the second to the fourth base in its site buffer.
\<close>

definition homopolymer_model :: coalescent_model where
  "homopolymer_model =
     \<lparr> reference_base_indel_heterozygosities =
         calculate_base_indel_heterozygosities 6
           [\<lparr> rep_pos = 2, rep_length = 4, rep_period = 1 \<rparr>] (1 / 2),
       params = \<lparr> snp_heterozygosity = 1 / 2, indel_heterozygosity = 1 / 2 \<rparr>,
       site_buffer1 = [\<lparr> is_indel = True, site_offset = 1, site_region_size = 3 \<rparr>],
       k_indel_zero_result_cache = [],
       k_indel_pos_result_cache = Map.empty \<rparr>"


section \<open>Theorems\<close>

subsection \<open>Construction of the coalescent model\<close>

text \<open>
  C10. The constructor of \<^verbatim>\<open>CoalescentModel\<close> raises the domain error exactly when the SNP
  heterozygosity or the indel heterozygosity is not positive; with both positive it
  returns a model.
\<close>

theorem CoalescentModel_domain_error_iff:
  "(CoalescentModel reference_size reference_repeats ps hint = Inl DomainError
      \<longleftrightarrow> snp_heterozygosity ps \<le> 0 \<or> indel_heterozygosity ps \<le> 0)
   \<and> (0 < snp_heterozygosity ps \<and> 0 < indel_heterozygosity ps
      \<longrightarrow> (\<exists>m. CoalescentModel reference_size reference_repeats ps hint = Inr m))
   \<and> (\<forall>e. CoalescentModel reference_size reference_repeats ps hint = Inl e \<longrightarrow> e = DomainError)"
  by (auto simp: CoalescentModel_def)

theorem CoalescentModel_domain_error_iff_witness:
  "CoalescentModel 4 [] \<lparr> snp_heterozygosity = 0, indel_heterozygosity = 1 / 10000 \<rparr> 2 = Inl DomainError
   \<and> (\<exists>m. CoalescentModel 4 [] \<lparr> snp_heterozygosity = 1 / 1000, indel_heterozygosity = 1 / 10000 \<rparr> 2
          = Inr m)"
  using CoalescentModel_domain_error_iff
          [of 4 "[]" "\<lparr> snp_heterozygosity = 0, indel_heterozygosity = 1 / 10000 \<rparr>" 2]
        CoalescentModel_domain_error_iff
          [of 4 "[]" "\<lparr> snp_heterozygosity = 1 / 1000, indel_heterozygosity = 1 / 10000 \<rparr>" 2]
  by simp


subsection \<open>Extension of the haplotype tree up to a bound\<close>

lemma find_if_extend_spec:
  "find_if_extend step num mx xs t = (it, t') \<Longrightarrow>
     it \<le> length xs \<and>
     (\<forall>k. 1 \<le> k \<and> k \<le> it \<longrightarrow> num (tree_after step xs t k) < mx) \<and>
     (if it < length xs
      then mx \<le> num (tree_after step xs t (Suc it)) \<and> t' = tree_after step xs t (Suc it)
      else t' = tree_after step xs t (length xs))"
proof (induction xs arbitrary: t it t')
  case Nil
  then show ?case by (simp add: tree_after_def)
next
  case (Cons a as)
  show ?case
  proof (cases "mx \<le> num (step a t)")
    case True
    with Cons.prems show ?thesis by (auto simp: tree_after_def)
  next
    case False
    obtain it0 t0 where r: "find_if_extend step num mx as (step a t) = (it0, t0)"
      by (cases "find_if_extend step num mx as (step a t)")
    from Cons.prems False r have it: "it = Suc it0" and t': "t' = t0" by (auto simp: Let_def)
    note IH = Cons.IH[OF r]
    have shift: "\<And>k. tree_after step (a # as) t (Suc k) = tree_after step as (step a t) k"
      by (simp add: tree_after_def)
    have "\<forall>k. 1 \<le> k \<and> k \<le> it \<longrightarrow> num (tree_after step (a # as) t k) < mx"
    proof (intro allI impI)
      fix k assume k: "1 \<le> k \<and> k \<le> it"
      then obtain k' where k': "k = Suc k'" by (cases k) auto
      show "num (tree_after step (a # as) t k) < mx"
      proof (cases k')
        case 0
        with k' False show ?thesis by (simp add: tree_after_def)
      next
        case (Suc j)
        with k k' it IH show ?thesis by (simp add: shift)
      qed
    qed
    with IH it t' show ?thesis by (auto simp: shift)
  qed
qed

lemma extend_tree_until_step_spec:
  "\<exists>it t'. extend_tree_until_step step num xs t mx = Inr (it, t') \<and> it \<le> length xs \<and>
     (if \<forall>k. 1 \<le> k \<and> k \<le> length xs \<longrightarrow> num (tree_after step xs t k) < mx
      then it = length xs \<and> t' = tree_after step xs t (length xs)
      else \<exists>j<length xs. (\<forall>k. 1 \<le> k \<and> k \<le> j \<longrightarrow> num (tree_after step xs t k) < mx)
             \<and> mx \<le> num (tree_after step xs t (Suc j))
             \<and> t' = tree_after step xs t (Suc j)
             \<and> it = (if num t' = mx then Suc j else j))"
proof (cases "xs = []")
  case True
  then show ?thesis by (simp add: extend_tree_until_step_def tree_after_def)
next
  case False
  obtain j t0 where r: "find_if_extend step num mx xs t = (j, t0)"
    by (cases "find_if_extend step num mx xs t")
  note S = find_if_extend_spec[OF r]
  show ?thesis
  proof (cases "j < length xs")
    case True
    with S have reach: "mx \<le> num (tree_after step xs t (Suc j))"
      and t0: "t0 = tree_after step xs t (Suc j)"
      and below: "\<forall>k. 1 \<le> k \<and> k \<le> j \<longrightarrow> num (tree_after step xs t k) < mx" by auto
    from True reach
    have notall: "\<not> (\<forall>k. 1 \<le> k \<and> k \<le> length xs \<longrightarrow> num (tree_after step xs t k) < mx)"
      by (metis Suc_leI Suc_le_mono le0 not_less One_nat_def)
    have res: "extend_tree_until_step step num xs t mx = Inr (if num t0 = mx then Suc j else j, t0)"
      using False r True by (simp add: extend_tree_until_step_def)
    show ?thesis using res notall True reach t0 below by auto
  next
    case False
    with S have jl: "j = length xs" and t0: "t0 = tree_after step xs t (length xs)"
      and below: "\<forall>k. 1 \<le> k \<and> k \<le> length xs \<longrightarrow> num (tree_after step xs t k) < mx" by auto
    from \<open>xs \<noteq> []\<close> have "1 \<le> length xs" by (cases xs) auto
    with below have "num t0 < mx" using t0 by auto
    then have res: "extend_tree_until_step step num xs t mx = Inr (length xs, t0)"
      using \<open>xs \<noteq> []\<close> r jl by (simp add: extend_tree_until_step_def)
    show ?thesis using res below t0 by auto
  qed
qed

text \<open>
  The overload for variants behaves in the same way, one step being the extension with
  the reference allele followed by the extension with the alternative allele.
\<close>

lemma extend_tree_until_variant_returns:
  "\<exists>it t'. extend_tree_until_variant ext num vs t mx = Inr (it, t') \<and> it \<le> length vs"
  using extend_tree_until_step_spec
          [of "\<lambda>(ref_allele, alt_allele) t. ext alt_allele (ext ref_allele t)" num vs t mx]
  unfolding extend_tree_until_variant_def by blast

text \<open>
  C2, as the code has it. \<^verbatim>\<open>extend_tree_until\<close> always returns. It extends the tree with
  the alleles in order, up to and including the first allele after whose extension
  \<^verbatim>\<open>num_haplotypes() >= max_haplotypes\<close>, or with all of them when there is none; every one of
  these extensions stays in the tree, also one that goes beyond the bound. It returns
  \<^verbatim>\<open>last\<close> when the bound was not reached, the iterator after that allele when the tree
  then holds exactly \<^verbatim>\<open>max_haplotypes\<close> haplotypes, and the iterator to that allele itself
  when it holds more.
\<close>

theorem extend_tree_until_spec:
  "\<exists>it t'. extend_tree_until ext num xs t mx = Inr (it, t') \<and> it \<le> length xs \<and>
     (if \<forall>k. 1 \<le> k \<and> k \<le> length xs \<longrightarrow> num (tree_after ext xs t k) < mx
      then it = length xs \<and> t' = tree_after ext xs t (length xs)
      else \<exists>j<length xs. (\<forall>k. 1 \<le> k \<and> k \<le> j \<longrightarrow> num (tree_after ext xs t k) < mx)
             \<and> mx \<le> num (tree_after ext xs t (Suc j))
             \<and> t' = tree_after ext xs t (Suc j)
             \<and> it = (if num t' = mx then Suc j else j))"
  unfolding extend_tree_until_def by (rule extend_tree_until_step_spec)

theorem extend_tree_until_spec_witness:
  "\<exists>it t'. extend_tree_until tree_extend tree_num_haplotypes
              [snv 0 ''A'', snv 0 ''C'', snv 1 ''G'', snv 1 ''T''] empty_tree 2 = Inr (it, t')
           \<and> it = 2 \<and> tree_num_haplotypes t' = 2"
  using extend_tree_until_spec
          [of tree_extend tree_num_haplotypes
              "[snv 0 ''A'', snv 0 ''C'', snv 1 ''G'', snv 1 ''T'']" empty_tree 2]
  by (simp add: extend_tree_until_def extend_tree_until_step_def tree_after_def tree_extend_def
      tree_num_haplotypes_def empty_tree_def snv_def allele_is_after_def Let_def)

text \<open>
  C2, as the specification states it, fails: with the bound 3 and two sites of two
  alleles each, the fourth extension takes the tree from two haplotypes to four. The
  call returns the iterator to the fourth allele, as if it were not consumed, but the
  tree it leaves is the tree after all four extensions, with four haplotypes.
\<close>

theorem extend_tree_until_overshoot_counterexample:
  "extend_tree_until tree_extend tree_num_haplotypes
       [snv 0 ''A'', snv 0 ''C'', snv 1 ''G'', snv 1 ''T''] empty_tree 3
     = Inr (3, tree_after tree_extend
                 [snv 0 ''A'', snv 0 ''C'', snv 1 ''G'', snv 1 ''T''] empty_tree 4)
   \<and> tree_num_haplotypes (tree_after tree_extend
        [snv 0 ''A'', snv 0 ''C'', snv 1 ''G'', snv 1 ''T''] empty_tree 4) = 4
   \<and> tree_after tree_extend [snv 0 ''A'', snv 0 ''C'', snv 1 ''G'', snv 1 ''T''] empty_tree 4
       \<noteq> tree_after tree_extend [snv 0 ''A'', snv 0 ''C'', snv 1 ''G'', snv 1 ''T''] empty_tree 3"
  by (simp add: extend_tree_until_def extend_tree_until_step_def tree_after_def tree_extend_def
      tree_num_haplotypes_def empty_tree_def snv_def allele_is_after_def Let_def)

subsection \<open>Dispatch of the tumour model on the ploidy\<close>

lemma is_somatic_expected_error:
  "is_somatic_expected priors s = Inl e \<Longrightarrow> e = OutOfRange"
  by (auto simp: is_somatic_expected_def split: option.splits)

lemma weighted_seeds_loop_error:
  "weighted_seeds_loop priors gs lp samples acc \<noteq> Inl UnimplementedFeatureError"
proof (induction samples arbitrary: acc)
  case Nil
  then show ?case by simp
next
  case (Cons s ss)
  obtain r c where acc: "acc = (r, c)" by (cases acc)
  show ?case
  proof (cases "is_somatic_expected priors s")
    case (Inl e')
    then have "e' = OutOfRange" by (rule is_somatic_expected_error)
    with Inl acc show ?thesis by (simp add: Let_def)
  next
    case (Inr b)
    show ?thesis
    proof (cases "length lp \<noteq> length gs")
      case True
      with Inr acc show ?thesis by (simp add: Let_def)
    next
      case False
      with Inr acc Cons.IH show ?thesis by (simp add: Let_def)
    qed
  qed
qed

lemma generate_weighted_seeds_error:
  "generate_weighted_seeds priors samples gs lp = Inl e \<Longrightarrow> e \<noteq> UnimplementedFeatureError"
  using weighted_seeds_loop_error[of priors gs lp samples
          "([normalise_logs lp], replicate (length gs) 0)"]
  by (auto simp: generate_weighted_seeds_def split: sum.splits)

lemma make_range_seed_for_error:
  "make_range_seed_for gs g = Inl e \<Longrightarrow> e = UndefinedBehaviour"
  by (auto simp: make_range_seed_for_def Let_def split: if_splits)

lemma range_seeds_loop_error:
  "range_seeds_loop gs sel n result = Inl e \<Longrightarrow> e = UndefinedBehaviour"
proof (induction sel arbitrary: n result)
  case Nil
  then show ?case by simp
next
  case (Cons g sel)
  then show ?case
    by (auto split: sum.splits if_splits dest: make_range_seed_for_error)
qed

lemma generate_targetted_seeds_error:
  "generate_targetted_seeds priors gs approx n result = Inl e \<Longrightarrow> e = UndefinedBehaviour"
  unfolding generate_targetted_seeds_def Let_def
  by (auto simp del: range_seeds_loop.simps split: if_splits sum.splits prod.splits
      dest: range_seeds_loop_error)

lemma generate_seeds_error:
  "generate_seeds priors samples gs lp max_seeds = Inl e \<Longrightarrow> e \<noteq> UnimplementedFeatureError"
  unfolding generate_seeds_def
  by (auto split: if_splits sum.splits
      dest: generate_targetted_seeds_error generate_weighted_seeds_error)

lemma transform_results_error:
  "transform_results rs = Inl e \<Longrightarrow> Inl e \<in> set rs"
  by (induction rs) (auto split: sum.splits)

lemma transform_results_map_Inr:
  "transform_results (map (\<lambda>x. Inr (f x)) xs) = Inr (map f xs)"
  by (induction xs) simp_all

lemma flatten_alphas_error:
  "flatten_alphas K prior_alphas samples \<noteq> Inl UnimplementedFeatureError"
proof
  assume "flatten_alphas K prior_alphas samples = Inl UnimplementedFeatureError"
  then have "Inl UnimplementedFeatureError
               \<in> set (map (\<lambda>sample. case prior_alphas sample of
                                       None \<Rightarrow> Inl OutOfRange
                                     | Some alpha \<Rightarrow> flatten_alpha K alpha) samples)"
    unfolding flatten_alphas_def by (rule transform_results_error)
  then show False
    by (auto simp: flatten_alpha_def split: option.splits if_splits)
qed

lemma flatten_genotypes_error:
  "flatten_genotypes ploidy hl K gs s \<noteq> Inl UnimplementedFeatureError"
proof
  assume "flatten_genotypes ploidy hl K gs s = Inl UnimplementedFeatureError"
  then have "Inl UnimplementedFeatureError
               \<in> set (map (\<lambda>genotype. flatten_genotype ploidy hl K genotype s) gs)"
    unfolding flatten_genotypes_def by (rule transform_results_error)
  then show False
    by (auto simp: flatten_genotype_def split: if_splits)
qed

lemma flatten_likelihoods_error:
  "flatten_likelihoods ploidy hl K gs samples \<noteq> Inl UnimplementedFeatureError"
proof
  assume "flatten_likelihoods ploidy hl K gs samples = Inl UnimplementedFeatureError"
  then have "Inl UnimplementedFeatureError
               \<in> set (map (\<lambda>sample. flatten_genotypes ploidy hl K gs sample) samples)"
    unfolding flatten_likelihoods_def by (rule transform_results_error)
  then obtain sample where "flatten_genotypes ploidy hl K gs sample = Inl UnimplementedFeatureError"
    by auto
  then show False using flatten_genotypes_error[of ploidy hl K gs sample] by simp
qed

lemma expand_error:
  "expand samples latents lp evidence \<noteq> Inl UnimplementedFeatureError"
  by (auto simp: expand_def split: prod.splits if_splits)

lemma run_variational_bayes_K_error:
  "run_variational_bayes_K ploidy vb hl K samples gs prior_alphas lp seeds
     \<noteq> Inl UnimplementedFeatureError"
  unfolding run_variational_bayes_K_def
  using flatten_alphas_error[of K prior_alphas samples]
    flatten_likelihoods_error[of ploidy hl K gs samples] expand_error[of samples]
  by (auto split: sum.splits prod.splits)

text \<open>
  The instance returns when every sample has at least \<open>K\<close> prior alphas and every
  genotype has the ploidy \<open>K\<close> and at most \<open>K\<close> haplotypes.
\<close>

lemma flatten_alphas_returns:
  assumes "\<forall>s\<in>set samples. \<exists>a. prior_alphas s = Some a \<and> K \<le> length a"
  shows "flatten_alphas K prior_alphas samples
           = Inr (map (\<lambda>s. take K (the (prior_alphas s))) samples)"
proof -
  have "map (\<lambda>sample. case prior_alphas sample of
                         None \<Rightarrow> Inl OutOfRange
                       | Some alpha \<Rightarrow> flatten_alpha K alpha) samples
          = map (\<lambda>s. Inr (take K (the (prior_alphas s)))) samples"
    using assms by (intro map_cong[OF refl]) (auto simp: flatten_alpha_def)
  then show ?thesis
    unfolding flatten_alphas_def by (simp only: transform_results_map_Inr)
qed

lemma flatten_genotypes_returns:
  assumes "\<forall>g\<in>set gs. ploidy g = K \<and> length (germline g) + length (somatic g) \<le> K"
  shows "flatten_genotypes ploidy hl K gs s
           = Inr (map (\<lambda>g. map (\<lambda>h. Some (hl s h)) (germline g @ somatic g)
                             @ replicate (K - (length (germline g) + length (somatic g))) None)
                      gs)"
proof -
  have "map (\<lambda>g. flatten_genotype ploidy hl K g s) gs
          = map (\<lambda>g. Inr (map (\<lambda>h. Some (hl s h)) (germline g @ somatic g)
                             @ replicate (K - (length (germline g) + length (somatic g))) None))
                gs"
    using assms by (intro map_cong[OF refl]) (auto simp: flatten_genotype_def)
  then show ?thesis
    unfolding flatten_genotypes_def by (simp only: transform_results_map_Inr)
qed

lemma flatten_likelihoods_returns:
  assumes "\<forall>g\<in>set gs. ploidy g = K \<and> length (germline g) + length (somatic g) \<le> K"
  shows "flatten_likelihoods ploidy hl K gs samples
           = Inr (map (\<lambda>s. map (\<lambda>g. map (\<lambda>h. Some (hl s h)) (germline g @ somatic g)
                             @ replicate (K - (length (germline g) + length (somatic g))) None)
                      gs) samples)"
  unfolding flatten_likelihoods_def flatten_genotypes_returns[OF assms]
  by (rule transform_results_map_Inr)

lemma run_variational_bayes_K_returns:
  assumes "\<forall>s\<in>set samples. \<exists>a. prior_alphas s = Some a \<and> K \<le> length a"
    and "\<forall>g\<in>set gs. ploidy g = K \<and> length (germline g) + length (somatic g) \<le> K"
  shows "run_variational_bayes_K ploidy vb hl K samples gs prior_alphas lp seeds
           = (case vb K (map (\<lambda>s. take K (the (prior_alphas s))) samples) lp
                     (map (\<lambda>s. map (\<lambda>g. map (\<lambda>h. Some (hl s h)) (germline g @ somatic g)
                        @ replicate (K - (length (germline g) + length (somatic g))) None)
                        gs) samples)
                     seeds of
                (latents, evidence) \<Rightarrow> expand samples latents lp evidence)"
  unfolding run_variational_bayes_K_def flatten_alphas_returns[OF assms(1)]
    flatten_likelihoods_returns[OF assms(2)]
  by simp

text \<open>
  The instance has no result when a sample has no prior alphas or fewer than \<open>K\<close>, and
  when there is a sample and a genotype has another ploidy than \<open>K\<close> or more than \<open>K\<close>
  haplotypes.
\<close>

lemma transform_results_fails:
  "\<exists>e. Inl e \<in> set rs \<Longrightarrow> \<exists>e. transform_results rs = Inl e \<and> Inl e \<in> set rs"
proof (induction rs)
  case Nil
  then show ?case by simp
next
  case (Cons r rs)
  show ?case
  proof (cases r)
    case (Inl e)
    then show ?thesis by simp
  next
    case (Inr x)
    with Cons.prems have "\<exists>e. Inl e \<in> set rs" by auto
    from Cons.IH[OF this] Inr show ?thesis by auto
  qed
qed

lemma flatten_alphas_fails:
  assumes "\<not> (\<forall>s\<in>set samples. \<exists>a. prior_alphas s = Some a \<and> K \<le> length a)"
  shows "flatten_alphas K prior_alphas samples = Inl OutOfRange
       \<or> flatten_alphas K prior_alphas samples = Inl UndefinedBehaviour"
proof -
  let ?f = "\<lambda>sample. case prior_alphas sample of
                       None \<Rightarrow> Inl OutOfRange
                     | Some alpha \<Rightarrow> flatten_alpha K alpha"
  from assms obtain s where s: "s \<in> set samples"
    and bad: "\<not> (\<exists>a. prior_alphas s = Some a \<and> K \<le> length a)" by blast
  then have "\<exists>e. ?f s = Inl e" by (cases "prior_alphas s") (auto simp: flatten_alpha_def)
  with s have "\<exists>e. Inl e \<in> set (map ?f samples)" by force
  from transform_results_fails[OF this]
  obtain e where e: "transform_results (map ?f samples) = Inl e" and "Inl e \<in> set (map ?f samples)"
    by blast
  then have "e = OutOfRange \<or> e = UndefinedBehaviour"
    by (auto simp: flatten_alpha_def split: option.splits if_splits)
  with e show ?thesis unfolding flatten_alphas_def by auto
qed

lemma flatten_genotypes_fails:
  assumes "\<not> (\<forall>g\<in>set gs. ploidy g = K \<and> length (germline g) + length (somatic g) \<le> K)"
  shows "flatten_genotypes ploidy hl K gs s = Inl UndefinedBehaviour"
proof -
  let ?f = "\<lambda>genotype. flatten_genotype ploidy hl K genotype s"
  from assms obtain g where g: "g \<in> set gs"
    and bad: "\<not> (ploidy g = K \<and> length (germline g) + length (somatic g) \<le> K)" by blast
  then have "?f g = Inl UndefinedBehaviour" by (auto simp: flatten_genotype_def)
  with g have "\<exists>e. Inl e \<in> set (map ?f gs)" by force
  from transform_results_fails[OF this]
  obtain e where e: "transform_results (map ?f gs) = Inl e" and "Inl e \<in> set (map ?f gs)"
    by blast
  then have "e = UndefinedBehaviour"
    by (auto simp: flatten_genotype_def split: if_splits)
  with e show ?thesis unfolding flatten_genotypes_def by simp
qed

lemma flatten_likelihoods_fails:
  assumes "samples \<noteq> []"
    and "\<not> (\<forall>g\<in>set gs. ploidy g = K \<and> length (germline g) + length (somatic g) \<le> K)"
  shows "flatten_likelihoods ploidy hl K gs samples = Inl UndefinedBehaviour"
proof -
  obtain s ss where samples: "samples = s # ss" using assms(1) by (cases samples) auto
  show ?thesis
    unfolding flatten_likelihoods_def samples
    by (simp add: flatten_genotypes_fails[OF assms(2)])
qed

lemma run_variational_bayes_K_fails:
  "(\<not> (\<forall>s\<in>set samples. \<exists>a. prior_alphas s = Some a \<and> K \<le> length a)
      \<longrightarrow> run_variational_bayes_K ploidy vb hl K samples gs prior_alphas lp seeds = Inl OutOfRange
        \<or> run_variational_bayes_K ploidy vb hl K samples gs prior_alphas lp seeds
            = Inl UndefinedBehaviour)
   \<and> ((\<forall>s\<in>set samples. \<exists>a. prior_alphas s = Some a \<and> K \<le> length a) \<and> samples \<noteq> []
        \<and> \<not> (\<forall>g\<in>set gs. ploidy g = K \<and> length (germline g) + length (somatic g) \<le> K)
      \<longrightarrow> run_variational_bayes_K ploidy vb hl K samples gs prior_alphas lp seeds
            = Inl UndefinedBehaviour)"
proof (intro conjI impI)
  assume "\<not> (\<forall>s\<in>set samples. \<exists>a. prior_alphas s = Some a \<and> K \<le> length a)"
  from flatten_alphas_fails[OF this]
  show "run_variational_bayes_K ploidy vb hl K samples gs prior_alphas lp seeds = Inl OutOfRange
        \<or> run_variational_bayes_K ploidy vb hl K samples gs prior_alphas lp seeds
            = Inl UndefinedBehaviour"
    unfolding run_variational_bayes_K_def by auto
next
  assume h: "(\<forall>s\<in>set samples. \<exists>a. prior_alphas s = Some a \<and> K \<le> length a) \<and> samples \<noteq> []
        \<and> \<not> (\<forall>g\<in>set gs. ploidy g = K \<and> length (germline g) + length (somatic g) \<le> K)"
  then have a: "\<forall>s\<in>set samples. \<exists>a. prior_alphas s = Some a \<and> K \<le> length a"
    and ne: "samples \<noteq> []"
    and bad: "\<not> (\<forall>g\<in>set gs. ploidy g = K \<and> length (germline g) + length (somatic g) \<le> K)"
    by blast+
  show "run_variational_bayes_K ploidy vb hl K samples gs prior_alphas lp seeds
            = Inl UndefinedBehaviour"
    unfolding run_variational_bayes_K_def flatten_alphas_returns[OF a]
      flatten_likelihoods_fails[OF ne bad]
    by simp
qed

lemma run_variational_bayes_helper_cases:
  "run_variational_bayes_helper ploidy vb hl samples gs prior_alphas lp seeds =
     (if 2 \<le> ploidy (hd gs) \<and> ploidy (hd gs) \<le> 8
      then run_variational_bayes_K ploidy vb hl (ploidy (hd gs)) samples gs prior_alphas lp seeds
      else Inl UnimplementedFeatureError)"
proof -
  have "2 \<le> ploidy (hd gs) \<and> ploidy (hd gs) \<le> 8 \<longleftrightarrow> ploidy (hd gs) \<in> {2, 3, 4, 5, 6, 7, 8}"
    by auto
  then show ?thesis
    by (auto simp: run_variational_bayes_helper_def Let_def)
qed

text \<open>
  C3, as the code has it. \<^verbatim>\<open>TumourModel::evaluate\<close> raises the unimplemented-feature error
  exactly when the seeds have been generated and \<^verbatim>\<open>genotypes.front().ploidy()\<close> lies outside
  2..8, so also for the value 1; for every value \<open>K\<close> in 2..8 it returns what the instance
  \<^verbatim>\<open>run_variational_bayes<K>\<close> returns on the genotype log priors and the seeds. The
  instance never raises the unimplemented-feature error. When every sample has at least
  \<open>K\<close> prior alphas and every genotype has the ploidy \<open>K\<close> and at most \<open>K\<close> haplotypes, it
  returns the expanded result of the variational Bayes algorithm on the flattened alphas
  and likelihoods. When a sample has no prior alphas or fewer than \<open>K\<close>, \<^verbatim>\<open>flatten<K>\<close>
  throws \<^verbatim>\<open>std::out_of_range\<close> or reads past the end of the alphas; when the alphas are
  there, there is a sample and a genotype has another ploidy than \<open>K\<close> or more than \<open>K\<close>
  haplotypes, \<^verbatim>\<open>flatten<K>\<close> leaves the defined behaviour. This holds for every definition
  of \<^verbatim>\<open>CancerGenotype::ploidy\<close>.
\<close>

theorem TumourModel_evaluate_unsupported_ploidy:
  "(TumourModel_evaluate ploidy vb hl priors samples max_seeds genotypes
        = Inl UnimplementedFeatureError
      \<longleftrightarrow> genotypes \<noteq> []
          \<and> (\<exists>seeds. generate_seeds priors samples genotypes
                        (calculate_log_priors priors genotypes) max_seeds = Inr seeds)
          \<and> \<not> (2 \<le> ploidy (hd genotypes) \<and> ploidy (hd genotypes) \<le> 8))
   \<and> (genotypes \<noteq> [] \<and> 2 \<le> ploidy (hd genotypes) \<and> ploidy (hd genotypes) \<le> 8
        \<and> generate_seeds priors samples genotypes
             (calculate_log_priors priors genotypes) max_seeds = Inr seeds
      \<longrightarrow> TumourModel_evaluate ploidy vb hl priors samples max_seeds genotypes
            = run_variational_bayes_K ploidy vb hl (ploidy (hd genotypes)) samples genotypes
                (alphas priors) (calculate_log_priors priors genotypes) seeds)
   \<and> run_variational_bayes_K ploidy vb hl K samples genotypes prior_alphas lp seeds
       \<noteq> Inl UnimplementedFeatureError
   \<and> ((\<forall>s\<in>set samples. \<exists>a. prior_alphas s = Some a \<and> K \<le> length a)
        \<and> (\<forall>g\<in>set genotypes. ploidy g = K \<and> length (germline g) + length (somatic g) \<le> K)
      \<longrightarrow> run_variational_bayes_K ploidy vb hl K samples genotypes prior_alphas lp seeds
            = (case vb K (map (\<lambda>s. take K (the (prior_alphas s))) samples) lp
                      (map (\<lambda>s. map (\<lambda>g. map (\<lambda>h. Some (hl s h)) (germline g @ somatic g)
                         @ replicate (K - (length (germline g) + length (somatic g))) None)
                         genotypes) samples)
                      seeds of
                 (latents, evidence) \<Rightarrow> expand samples latents lp evidence))
   \<and> (\<not> (\<forall>s\<in>set samples. \<exists>a. prior_alphas s = Some a \<and> K \<le> length a)
      \<longrightarrow> run_variational_bayes_K ploidy vb hl K samples genotypes prior_alphas lp seeds
            = Inl OutOfRange
        \<or> run_variational_bayes_K ploidy vb hl K samples genotypes prior_alphas lp seeds
            = Inl UndefinedBehaviour)
   \<and> ((\<forall>s\<in>set samples. \<exists>a. prior_alphas s = Some a \<and> K \<le> length a) \<and> samples \<noteq> []
        \<and> \<not> (\<forall>g\<in>set genotypes. ploidy g = K
                 \<and> length (germline g) + length (somatic g) \<le> K)
      \<longrightarrow> run_variational_bayes_K ploidy vb hl K samples genotypes prior_alphas lp seeds
            = Inl UndefinedBehaviour)"
proof (intro conjI[OF _ conjI[OF _ conjI[OF _ conjI]]] impI)
  show "(\<not> (\<forall>s\<in>set samples. \<exists>a. prior_alphas s = Some a \<and> K \<le> length a)
      \<longrightarrow> run_variational_bayes_K ploidy vb hl K samples genotypes prior_alphas lp seeds
            = Inl OutOfRange
        \<or> run_variational_bayes_K ploidy vb hl K samples genotypes prior_alphas lp seeds
            = Inl UndefinedBehaviour)
   \<and> ((\<forall>s\<in>set samples. \<exists>a. prior_alphas s = Some a \<and> K \<le> length a) \<and> samples \<noteq> []
        \<and> \<not> (\<forall>g\<in>set genotypes. ploidy g = K
                 \<and> length (germline g) + length (somatic g) \<le> K)
      \<longrightarrow> run_variational_bayes_K ploidy vb hl K samples genotypes prior_alphas lp seeds
            = Inl UndefinedBehaviour)"
    by (rule run_variational_bayes_K_fails)
next
  show "TumourModel_evaluate ploidy vb hl priors samples max_seeds genotypes
        = Inl UnimplementedFeatureError
      \<longleftrightarrow> genotypes \<noteq> []
          \<and> (\<exists>seeds. generate_seeds priors samples genotypes
                        (calculate_log_priors priors genotypes) max_seeds = Inr seeds)
          \<and> \<not> (2 \<le> ploidy (hd genotypes) \<and> ploidy (hd genotypes) \<le> 8)"
    unfolding TumourModel_evaluate_def run_variational_bayes_def Let_def
    using run_variational_bayes_K_error[of ploidy vb hl "ploidy (hd genotypes)" samples genotypes
            "alphas priors" "calculate_log_priors priors genotypes"]
    by (auto simp: run_variational_bayes_helper_cases split: sum.splits
        dest: generate_seeds_error)
next
  assume "genotypes \<noteq> [] \<and> 2 \<le> ploidy (hd genotypes) \<and> ploidy (hd genotypes) \<le> 8
        \<and> generate_seeds priors samples genotypes
             (calculate_log_priors priors genotypes) max_seeds = Inr seeds"
  then show "TumourModel_evaluate ploidy vb hl priors samples max_seeds genotypes
            = run_variational_bayes_K ploidy vb hl (ploidy (hd genotypes)) samples genotypes
                (alphas priors) (calculate_log_priors priors genotypes) seeds"
    by (simp add: TumourModel_evaluate_def run_variational_bayes_def Let_def
        run_variational_bayes_helper_cases)
next
  show "run_variational_bayes_K ploidy vb hl K samples genotypes prior_alphas lp seeds
       \<noteq> Inl UnimplementedFeatureError"
    by (rule run_variational_bayes_K_error)
next
  assume "(\<forall>s\<in>set samples. \<exists>a. prior_alphas s = Some a \<and> K \<le> length a)
        \<and> (\<forall>g\<in>set genotypes. ploidy g = K \<and> length (germline g) + length (somatic g) \<le> K)"
  then show "run_variational_bayes_K ploidy vb hl K samples genotypes prior_alphas lp seeds
            = (case vb K (map (\<lambda>s. take K (the (prior_alphas s))) samples) lp
                      (map (\<lambda>s. map (\<lambda>g. map (\<lambda>h. Some (hl s h)) (germline g @ somatic g)
                         @ replicate (K - (length (germline g) + length (somatic g))) None)
                         genotypes) samples)
                      seeds of
                 (latents, evidence) \<Rightarrow> expand samples latents lp evidence)"
    by (intro run_variational_bayes_K_returns) simp_all
qed

text \<open>
  One sample with three prior alphas. For one cancer genotype with two germline
  haplotypes and one somatic haplotype, of the ploidy 3, the evaluation returns what the
  instance for \<open>K = 3\<close> returns; for one cancer genotype with ten haplotypes it raises the
  error; for one cancer genotype with four haplotypes the instance for \<open>K = 4\<close> reads a
  fourth prior alpha, which is not there.
\<close>

theorem TumourModel_evaluate_unsupported_ploidy_witness:
  "TumourModel_evaluate total_ploidy vb_components cache_haplotype flat_priors [0] 6
     [\<lparr> germline = [0, 1], somatic = [2] \<rparr>]
     = Inr (([0], map_of [(0, [1, 1, 1])]), [0], 3)
   \<and> TumourModel_evaluate total_ploidy vb_components cache_haplotype flat_priors [0] 6
       [\<lparr> germline = [0, 1, 2, 3, 4, 5, 6, 7, 8], somatic = [9] \<rparr>]
     = Inl UnimplementedFeatureError
   \<and> TumourModel_evaluate total_ploidy vb_components cache_haplotype flat_priors [0] 6
       [\<lparr> germline = [0, 1, 2], somatic = [3] \<rparr>]
     = Inl UndefinedBehaviour"
proof -
  let ?g = "[\<lparr> germline = [0, 1], somatic = [2::nat] \<rparr>]"
  have lp: "calculate_log_priors flat_priors ?g = [0]"
    by (simp add: calculate_log_priors_def normalise_logs_def log_sum_exp_def flat_priors_def)
  have seeds: "generate_seeds flat_priors [0] ?g (calculate_log_priors flat_priors ?g) 6
                 = Inr (generate_exhaustive_seeds 1)"
    by (simp add: generate_seeds_def num_weighted_seeds_def)
  have p: "?g \<noteq> [] \<and> 2 \<le> total_ploidy (hd ?g) \<and> total_ploidy (hd ?g) \<le> 8
        \<and> generate_seeds flat_priors [0] ?g (calculate_log_priors flat_priors ?g) 6
              = Inr (generate_exhaustive_seeds 1)"
    using seeds by (simp add: total_ploidy_def somatic_ploidy_def)
  have q: "(\<forall>s\<in>set [0::nat]. \<exists>a. alphas flat_priors s = Some a \<and> 3 \<le> length a)
        \<and> (\<forall>g\<in>set ?g. total_ploidy g = 3 \<and> length (germline g) + length (somatic g) \<le> 3)"
    by (simp add: flat_priors_def total_ploidy_def somatic_ploidy_def)
  note t = TumourModel_evaluate_unsupported_ploidy
             [of total_ploidy vb_components cache_haplotype flat_priors "[0]" 6 ?g
                 "generate_exhaustive_seeds 1" 3 "alphas flat_priors" "[0]"]
  have tp: "total_ploidy (hd ?g) = 3" by (simp add: total_ploidy_def somatic_ploidy_def)
  note e0 = t[THEN conjunct2, THEN conjunct1, THEN mp, OF p]
  have e: "TumourModel_evaluate total_ploidy vb_components cache_haplotype flat_priors
                      [0] 6 ?g
        = run_variational_bayes_K total_ploidy vb_components cache_haplotype 3 [0] ?g
            (alphas flat_priors) [0] (generate_exhaustive_seeds 1)"
    using e0 unfolding tp lp .
  note r0 = t[THEN conjunct2, THEN conjunct2, THEN conjunct2, THEN conjunct1, THEN mp, OF q]
  have r: "run_variational_bayes_K total_ploidy vb_components cache_haplotype 3 [0] ?g
            (alphas flat_priors) [0] (generate_exhaustive_seeds 1)
        = Inr (([0], map_of [(0, [1, 1, 1])]), [0], 3)"
    unfolding r0 by (simp add: vb_components_def expand_def flat_priors_def)
  have first: "TumourModel_evaluate total_ploidy vb_components cache_haplotype flat_priors
                 [0] 6 ?g = Inr (([0], map_of [(0, [1, 1, 1])]), [0], 3)"
    unfolding e r ..
  have second: "TumourModel_evaluate total_ploidy vb_components cache_haplotype flat_priors [0] 6
       [\<lparr> germline = [0, 1, 2, 3, 4, 5, 6, 7, 8], somatic = [9] \<rparr>]
     = Inl UnimplementedFeatureError"
    using TumourModel_evaluate_unsupported_ploidy
          [of total_ploidy vb_components cache_haplotype flat_priors "[0]" 6
              "[\<lparr> germline = [0, 1, 2, 3, 4, 5, 6, 7, 8], somatic = [9] \<rparr>]"]
    by (simp add: generate_seeds_def num_weighted_seeds_def total_ploidy_def somatic_ploidy_def)
  let ?g4 = "[\<lparr> germline = [0, 1, 2], somatic = [3::nat] \<rparr>]"
  have seeds4: "generate_seeds flat_priors [0] ?g4 (calculate_log_priors flat_priors ?g4) 6
                 = Inr (generate_exhaustive_seeds 1)"
    by (simp add: generate_seeds_def num_weighted_seeds_def)
  have p4: "?g4 \<noteq> [] \<and> 2 \<le> total_ploidy (hd ?g4) \<and> total_ploidy (hd ?g4) \<le> 8
        \<and> generate_seeds flat_priors [0] ?g4 (calculate_log_priors flat_priors ?g4) 6
              = Inr (generate_exhaustive_seeds 1)"
    using seeds4 by (simp add: total_ploidy_def somatic_ploidy_def)
  have tp4: "total_ploidy (hd ?g4) = 4" by (simp add: total_ploidy_def somatic_ploidy_def)
  note t4 = TumourModel_evaluate_unsupported_ploidy
             [of total_ploidy vb_components cache_haplotype flat_priors "[0]" 6 ?g4
                 "generate_exhaustive_seeds 1" 4 "alphas flat_priors"
                 "calculate_log_priors flat_priors ?g4"]
  note e4 = t4[THEN conjunct2, THEN conjunct1, THEN mp, OF p4, unfolded tp4]
  have q4: "\<not> (\<forall>s\<in>set [0::nat]. \<exists>a. alphas flat_priors s = Some a \<and> 4 \<le> length a)"
    by (simp add: flat_priors_def)
  note f4 = t4[THEN conjunct2, THEN conjunct2, THEN conjunct2, THEN conjunct2, THEN conjunct1,
               THEN mp, OF q4]
  have "run_variational_bayes_K total_ploidy vb_components cache_haplotype 4 [0] ?g4
            (alphas flat_priors) (calculate_log_priors flat_priors ?g4)
            (generate_exhaustive_seeds 1) \<noteq> Inl OutOfRange"
    by (simp add: run_variational_bayes_K_def flatten_alphas_def flatten_alpha_def
        flat_priors_def)
  with f4 e4 have third: "TumourModel_evaluate total_ploidy vb_components cache_haplotype
                 flat_priors [0] 6 ?g4 = Inl UndefinedBehaviour"
    by simp
  from first second third show ?thesis by blast
qed

text \<open>
  C3, as the specification states it, fails under both readings of the ploidy of a cancer
  genotype. With the germline ploidy, one cancer genotype with a haploid germline, whose
  ploidy 1 the claim counts among those that do not raise, raises the error. With the
  number of all haplotypes, one cancer genotype with the germline ploidy 8 and one somatic
  haplotype raises the error, although its germline ploidy is not greater than 8.
\<close>

theorem TumourModel_evaluate_ploidy_counterexample:
  "germline_ploidy \<lparr> germline = [0::nat], somatic = [1] \<rparr> = 1
   \<and> TumourModel_evaluate germline_ploidy vb_components cache_haplotype flat_priors [0] 6
       [\<lparr> germline = [0], somatic = [1] \<rparr>]
     = Inl UnimplementedFeatureError
   \<and> length (germline \<lparr> germline = [0::nat, 1, 2, 3, 4, 5, 6, 7], somatic = [8] \<rparr>) = 8
   \<and> TumourModel_evaluate total_ploidy vb_components cache_haplotype flat_priors [0] 6
       [\<lparr> germline = [0, 1, 2, 3, 4, 5, 6, 7], somatic = [8] \<rparr>]
     = Inl UnimplementedFeatureError"
  by (simp add: TumourModel_evaluate_def run_variational_bayes_def generate_seeds_def
      num_weighted_seeds_def run_variational_bayes_helper_def germline_ploidy_def
      total_ploidy_def somatic_ploidy_def Let_def)

subsection \<open>Seeds of the tumour model\<close>
































subsection \<open>Forced phasing\<close>


lemma fold_min_in: "fold min xs (x::nat) \<in> set (x # xs)"
proof (induction xs arbitrary: x)
  case Nil
  then show ?case by simp
next
  case (Cons y ys)
  have "fold min ys (min y x) \<in> set (min y x # ys)" by (rule Cons.IH)
  then have "fold min ys (min y x) = min y x \<or> fold min ys (min y x) \<in> set ys" by simp
  moreover have "min y x = x \<or> min y x = y" by (simp add: min_def)
  ultimately show ?case by fastforce
qed

lemma fold_max_in: "fold max xs (x::nat) \<in> set (x # xs)"
proof (induction xs arbitrary: x)
  case Nil
  then show ?case by simp
next
  case (Cons y ys)
  have "fold max ys (max y x) \<in> set (max y x # ys)" by (rule Cons.IH)
  then have "fold max ys (max y x) = max y x \<or> fold max ys (max y x) \<in> set ys" by simp
  moreover have "max y x = x \<or> max y x = y" by (simp add: max_def)
  ultimately show ?case by fastforce
qed

lemma encompassing_region_begin_in:
  "rs \<noteq> [] \<Longrightarrow> region_begin (encompassing_region rs) \<in> region_begin ` set rs"
  using fold_min_in[of "map region_begin rs" "region_begin (hd rs)"]
  by (cases rs) (auto simp: encompassing_region_def)

lemma encompassing_region_end_in:
  "rs \<noteq> [] \<Longrightarrow> region_end (encompassing_region rs) \<in> region_end ` set rs"
  using fold_max_in[of "map region_end rs" "region_end (hd rs)"]
  by (cases rs) (auto simp: encompassing_region_def)

lemma ordered_disjoint_runs:
  assumes "ordered_disjoint (concat runs)" "\<forall>r\<in>set runs. r \<noteq> []"
  shows "ordered_disjoint (map encompassing_region runs)"
  using assms
proof (induction runs)
  case Nil
  then show ?case by (simp add: ordered_disjoint_def)
next
  case (Cons r runs)
  from Cons.prems have r: "r \<noteq> []" and rest: "\<forall>r\<in>set runs. r \<noteq> []" by auto
  from Cons.prems(1) have tail: "ordered_disjoint (concat runs)"
    and cross: "\<forall>a\<in>set r. \<forall>b\<in>set (concat runs). region_end a \<le> region_begin b"
    by (auto simp: ordered_disjoint_def sorted_wrt_append)
  have "\<forall>r'\<in>set runs. region_end (encompassing_region r) \<le> region_begin (encompassing_region r')"
  proof
    fix r' assume r': "r' \<in> set runs"
    with rest have "r' \<noteq> []" by auto
    from encompassing_region_begin_in[OF this] obtain b where b: "b \<in> set r'"
      and eb: "region_begin (encompassing_region r') = region_begin b" by auto
    from encompassing_region_end_in[OF r] obtain a where a: "a \<in> set r"
      and ea: "region_end (encompassing_region r) = region_end a" by auto
    from b r' have "b \<in> set (concat runs)" by auto
    with cross a have "region_end a \<le> region_begin b" by auto
    with ea eb show "region_end (encompassing_region r) \<le> region_begin (encompassing_region r')"
      by simp
  qed
  with Cons.IH[OF tail rest] show ?case by (simp add: ordered_disjoint_def)
qed

lemma force_phase_loop_runs:
  "force_phase_loop score m ps fp lp result = Inr regions \<Longrightarrow>
     \<exists>runs. concat runs = drop fp ps \<and> (\<forall>r\<in>set runs. r \<noteq> [])
          \<and> map fst regions = map fst result @ map encompassing_region runs"
proof (induction score m ps fp lp result rule: force_phase_loop.induct)
  case (1 score m ps fp lp result)
  show ?case
  proof (cases "fp = length ps")
    case True
    with "1.prems" have "regions = result" by simp
    with True show ?thesis by (intro exI[of _ "[]"]) simp
  next
    case False
    note nf = this
    show ?thesis
    proof (cases "fp < lp \<and> lp \<le> length ps")
      case False
      with nf "1.prems" show ?thesis by simp
    next
      case True
      let ?curr = "encompassing_region (take (lp - fp) (drop fp ps))"
      show ?thesis
      proof (cases "score fp lp \<ge> m \<or> lp - fp = 1")
        case acc: True
        from "1.prems" nf True acc
        have run: "force_phase_loop score m ps lp (length ps) (result @ [(?curr, score fp lp)])
                     = Inr regions"
          by (simp add: Let_def)
        have nn: "\<not> \<not> (fp < lp \<and> lp \<le> length ps)" using True by simp
        from "1.IH"(1)[OF nf nn refl refl acc run]
        obtain runs where c: "concat runs = drop lp ps" and ne: "\<forall>r\<in>set runs. r \<noteq> []"
          and m: "map fst regions = map fst (result @ [(?curr, score fp lp)])
                                      @ map encompassing_region runs"
          by auto
        let ?run = "take (lp - fp) (drop fp ps)"
        have "?run @ drop lp ps = drop fp ps"
        proof -
          have "drop lp ps = drop (lp - fp) (drop fp ps)" using True by simp
          then show ?thesis by (simp only: append_take_drop_id)
        qed
        moreover have "?run \<noteq> []" using True by auto
        ultimately show ?thesis using c ne m
          by (intro exI[of _ "?run # runs"]) simp
      next
        case rej: False
        from "1.prems" nf True rej
        have run: "force_phase_loop score m ps fp (lp - 1) result = Inr regions"
          by (simp add: Let_def)
        have nn: "\<not> \<not> (fp < lp \<and> lp \<le> length ps)" using True by simp
        from "1.IH"(2)[OF nf nn refl refl rej run] show ?thesis by auto
      qed
    qed
  qed
qed

lemma force_phase_loop_returns:
  "fp = length ps \<or> (fp < lp \<and> lp \<le> length ps) \<Longrightarrow>
     \<exists>regions. force_phase_loop score m ps fp lp result = Inr regions"
proof (induction score m ps fp lp result rule: force_phase_loop.induct)
  case (1 score m ps fp lp result)
  show ?case
  proof (cases "fp = length ps")
    case True
    then show ?thesis by simp
  next
    case False
    with "1.prems" have ok: "fp < lp \<and> lp \<le> length ps" by simp
    show ?thesis
    proof (cases "score fp lp \<ge> m \<or> lp - fp = 1")
      case acc: True
      have "lp = length ps \<or> (lp < length ps \<and> length ps \<le> length ps)" using ok by auto
      have nn: "\<not> \<not> (fp < lp \<and> lp \<le> length ps)" using ok by simp
      from "1.IH"(1)[OF False nn refl refl acc \<open>lp = length ps \<or> (lp < length ps \<and> length ps \<le> length ps)\<close>]
      obtain regions where "force_phase_loop score m ps lp (length ps)
          (result @ [(encompassing_region (take (lp - fp) (drop fp ps)), score fp lp)])
          = Inr regions" by auto
      with False ok acc show ?thesis by (simp add: Let_def)
    next
      case rej: False
      then have "fp < lp - 1 \<and> lp - 1 \<le> length ps" using ok by auto
      then have "fp = length ps \<or> (fp < lp - 1 \<and> lp - 1 \<le> length ps)" by simp
      have nn: "\<not> \<not> (fp < lp \<and> lp \<le> length ps)" using ok by simp
      from "1.IH"(2)[OF False nn refl refl rej \<open>fp = length ps \<or> (fp < lp - 1 \<and> lp - 1 \<le> length ps)\<close>]
      obtain regions where "force_phase_loop score m ps fp (lp - 1) result = Inr regions"
        by auto
      with False ok rej show ?thesis by (simp add: Let_def)
    qed
  qed
qed

text \<open>
  C7, as the code has it. For candidate partitions in contig order that do not overlap,
  the phase regions that \<^verbatim>\<open>Phaser::force_phase\<close> returns for a sample are in contig order
  and do not overlap. A sample that is not split (haploid genotypes, a single partition,
  or a phase score over all partitions that reaches the minimum) gets the haplotype
  window as its one region, so the length is the window length. A sample that is split
  gets, for consecutive runs of the partitions that together are all the partitions, the
  region encompassing each run: the lengths are those of the runs' spans, and the window
  outside and between the spans belongs to no phase region.
\<close>

theorem force_phase_regions:
  assumes "ordered_disjoint partitions"
  shows "(genotype_ploidy = 1 \<or> length partitions = 1 \<longrightarrow>
            force_phase haplotype_region partitions genotype_ploidy max_posterior full_score score
              min_phase_score = Inr [(haplotype_region, max_posterior)]
          \<and> phase_regions_length [(haplotype_region, max_posterior)] = region_size haplotype_region)
       \<and> (genotype_ploidy \<noteq> 1 \<and> length partitions \<noteq> 1 \<and> min_phase_score \<le> full_score \<longrightarrow>
            force_phase haplotype_region partitions genotype_ploidy max_posterior full_score score
              min_phase_score = Inr [(haplotype_region, full_score)]
          \<and> phase_regions_length [(haplotype_region, full_score)] = region_size haplotype_region)
       \<and> (genotype_ploidy \<noteq> 1 \<and> 2 \<le> length partitions \<and> full_score < min_phase_score \<longrightarrow>
            (\<exists>regions runs.
                force_phase haplotype_region partitions genotype_ploidy max_posterior full_score
                  score min_phase_score = Inr regions
              \<and> concat runs = partitions \<and> (\<forall>r\<in>set runs. r \<noteq> [])
              \<and> map fst regions = map encompassing_region runs
              \<and> ordered_disjoint (map fst regions)))"
proof (intro conjI impI)
  assume h: "genotype_ploidy \<noteq> 1 \<and> 2 \<le> length partitions \<and> full_score < min_phase_score"
  then have ne: "partitions \<noteq> []" by auto
  have start: "0 = length partitions \<or> (0 < length partitions - 1 \<and> length partitions - 1 \<le> length partitions)"
    using h by auto
  from force_phase_loop_returns[OF start, of score min_phase_score "[]"]
  obtain regions where r: "force_phase_loop score min_phase_score partitions 0 (length partitions - 1) []
                             = Inr regions" ..
  from force_phase_loop_runs[OF r]
  obtain runs where c: "concat runs = partitions" and n: "\<forall>r\<in>set runs. r \<noteq> []"
    and m: "map fst regions = map encompassing_region runs" by auto
  have "ordered_disjoint (map encompassing_region runs)"
    using assms c n by (intro ordered_disjoint_runs) simp_all
  moreover have "force_phase haplotype_region partitions genotype_ploidy max_posterior full_score
                   score min_phase_score = Inr regions"
    using h ne r by (simp add: force_phase_def force_phase_sample_def)
  ultimately show "\<exists>regions runs.
                force_phase haplotype_region partitions genotype_ploidy max_posterior full_score
                  score min_phase_score = Inr regions
              \<and> concat runs = partitions \<and> (\<forall>r\<in>set runs. r \<noteq> [])
              \<and> map fst regions = map encompassing_region runs
              \<and> ordered_disjoint (map fst regions)"
    using c n m by (intro exI[of _ regions] exI[of _ runs]) simp
qed (auto simp: force_phase_def force_phase_sample_def phase_regions_length_def)

theorem force_phase_regions_witness:
  "\<exists>regions. force_phase \<lparr> region_begin = 0, region_end = 100 \<rparr>
       [\<lparr> region_begin = 10, region_end = 11 \<rparr>, \<lparr> region_begin = 50, region_end = 51 \<rparr>,
        \<lparr> region_begin = 60, region_end = 61 \<rparr>] 2 1000 0 no_phase_score 20 = Inr regions
     \<and> ordered_disjoint (map fst regions)"
proof -
  have o: "ordered_disjoint [\<lparr> region_begin = 10, region_end = 11 \<rparr>,
             \<lparr> region_begin = 50, region_end = 51 \<rparr>, \<lparr> region_begin = 60, region_end = 61 \<rparr>]"
    by (simp add: ordered_disjoint_def)
  have p: "(2::nat) \<noteq> 1 \<and> 2 \<le> length [\<lparr> region_begin = 10, region_end = 11 \<rparr>,
             \<lparr> region_begin = 50, region_end = 51 \<rparr>, \<lparr> region_begin = 60, region_end = 61 \<rparr>]
           \<and> (0::real) < 20"
    by simp
  from force_phase_regions[OF o, of 2 "\<lparr> region_begin = 0, region_end = 100 \<rparr>" 1000 0
         no_phase_score 20, THEN conjunct2, THEN conjunct2, THEN mp, OF p]
  show ?thesis by blast
qed

text \<open>
  C7, as the specification states it, fails: a window of length 100 with two candidate
  sites whose genotypes do not phase is split into the two sites' regions, of total
  length 2.
\<close>

theorem force_phase_window_length_counterexample:
  "force_phase \<lparr> region_begin = 0, region_end = 100 \<rparr>
       [\<lparr> region_begin = 10, region_end = 11 \<rparr>, \<lparr> region_begin = 50, region_end = 51 \<rparr>]
       2 1000 0 no_phase_score 20
     = Inr [(\<lparr> region_begin = 10, region_end = 11 \<rparr>, 0),
            (\<lparr> region_begin = 50, region_end = 51 \<rparr>, 0)]
   \<and> phase_regions_length [(\<lparr> region_begin = 10, region_end = 11 \<rparr>, 0),
                            (\<lparr> region_begin = 50, region_end = 51 \<rparr>, 0)] = 2
   \<and> region_size \<lparr> region_begin = 0, region_end = 100 \<rparr> = 100"
  by (simp add: force_phase_def force_phase_sample_def no_phase_score_def
      encompassing_region_def phase_regions_length_def region_size_def Let_def)

subsection \<open>Lengths in the haplotype likelihood cache\<close>


lemma haplotype_log_likelihoods_lengths:
  "haplotype_log_likelihoods lp h fh ranges = Inr vs \<Longrightarrow>
     length vs = length ranges \<and> (\<forall>i<length ranges. length (vs ! i) = length (ranges ! i))"
proof (induction ranges arbitrary: vs)
  case Nil
  then show ?case by simp
next
  case (Cons t ts)
  from Cons.prems obtain v vs' where v: "sample_log_likelihoods lp h fh t = Inr v"
    and vs': "haplotype_log_likelihoods lp h fh ts = Inr vs'" and vs: "vs = v # vs'"
    by (auto split: sum.splits)
  from v have lv: "length v = length t"
    by (auto simp: sample_log_likelihoods_def split: if_splits)
  from Cons.IH[OF vs'] have IH: "length vs' = length ts"
    "\<forall>i<length ts. length (vs' ! i) = length (ts ! i)" by auto
  show ?case
  proof (intro conjI allI impI)
    show "length vs = length (t # ts)" using vs IH by simp
  next
    fix i assume "i < length (t # ts)"
    then show "length (vs ! i) = length ((t # ts) ! i)"
      using vs lv IH by (cases i) auto
  qed
qed

lemma populate_haplotypes_entries:
  "populate_haplotypes lp n rh ranges hs m = Inr m' \<Longrightarrow>
     (\<forall>h. h \<notin> set hs \<longrightarrow> m' h = m h) \<and>
     (\<forall>h\<in>set hs. \<exists>vs. m' h = Some vs \<and> length vs = n
         \<and> (\<forall>i<length ranges. length (vs ! i) = length (ranges ! i)))"
proof (induction hs arbitrary: m)
  case Nil
  then show ?case by simp
next
  case (Cons h hs)
  let ?fh = "if rh = [] then [] else hd rh"
  from Cons.prems have le: "length ranges \<le> n" by (auto split: if_splits)
  with Cons.prems obtain vs where vs: "haplotype_log_likelihoods lp h ?fh ranges = Inr vs"
    and rest: "populate_haplotypes lp n rh ranges hs
                 (m(h \<mapsto> vs @ replicate (n - length ranges) [])) = Inr m'"
    by (auto split: sum.splits if_splits)
  note L = haplotype_log_likelihoods_lengths[OF vs]
  note IH = Cons.IH[OF rest]
  let ?e = "vs @ replicate (n - length ranges) []"
  have e: "length ?e = n \<and> (\<forall>i<length ranges. length (?e ! i) = length (ranges ! i))"
    using L le by (auto simp: nth_append)
  show ?case
  proof (intro conjI allI impI ballI)
    fix h' assume "h' \<notin> set (h # hs)"
    then show "m' h' = m h'" using IH by auto
  next
    fix h' assume h': "h' \<in> set (h # hs)"
    show "\<exists>vs. m' h' = Some vs \<and> length vs = n
         \<and> (\<forall>i<length ranges. length (vs ! i) = length (ranges ! i))"
    proof (cases "h' \<in> set hs")
      case True
      with IH show ?thesis by auto
    next
      case False
      with h' have "h' = h" by simp
      with False IH have "m' h' = Some ?e" by auto
      with e show ?thesis by blast
    qed
  qed
qed

lemma haplotype_log_likelihoods_returns:
  "\<forall>t\<in>set ranges. length t \<le> length fh \<Longrightarrow>
     \<exists>vs. haplotype_log_likelihoods lp h fh ranges = Inr vs"
  by (induction ranges) (auto simp: sample_log_likelihoods_def)

lemma populate_haplotypes_returns:
  "length ranges \<le> n \<Longrightarrow> \<forall>t\<in>set ranges. length t \<le> length (if rh = [] then [] else hd rh) \<Longrightarrow>
     \<exists>m'. populate_haplotypes lp n rh ranges hs m = Inr m'"
proof (induction hs arbitrary: m)
  case Nil
  then show ?case by simp
next
  case (Cons h hs)
  from haplotype_log_likelihoods_returns[OF Cons.prems(2), of lp h]
  obtain vs where "haplotype_log_likelihoods lp h (if rh = [] then [] else hd rh) ranges = Inr vs" ..
  with Cons.IH[OF Cons.prems] Cons.prems(1) show ?case by simp
qed

text \<open>
  \<^verbatim>\<open>populate\<close> returns when there is a haplotype and no sample has more reads than the
  first sample of the read map.
\<close>

lemma populate_returns:
  assumes "read_iterators c = []" "haplotypes \<noteq> []"
    and "\<forall>p\<in>set reads. length (snd p) \<le> length (snd (hd reads))"
  shows "\<exists>c'. populate kh lp c reads haplotypes = Inr c'"
proof -
  let ?ranges = "map snd reads"
  let ?rh = "map (map kh) ?ranges"
  have "\<forall>t\<in>set ?ranges. length t \<le> length (if ?rh = [] then [] else hd ?rh)"
    using assms(3) by (cases reads) auto
  from populate_haplotypes_returns[OF _ this, of "length reads" lp haplotypes Map.empty]
  obtain m' where "populate_haplotypes lp (length reads) ?rh ?ranges haplotypes Map.empty = Inr m'"
    by auto
  then show ?thesis
    using assms(1,2)
    by (simp add: populate_def set_read_iterators_and_sample_indices_def Let_def)
qed

text \<open>
  Whenever \<^verbatim>\<open>populate\<close> returns on a cache whose read ranges were cleared (a new cache, or
  one that an earlier \<^verbatim>\<open>populate\<close> has left), \<^verbatim>\<open>log_likelihoods\<close> returns, for every sample
  of the read map and every haplotype of the call, a vector with one entry for each read
  of the sample.
\<close>

lemma populate_log_likelihoods_length:
  assumes "read_iterators c = []" and "distinct (map fst reads)"
    and "populate kh lp c reads haplotypes = Inr c'"
  shows "\<forall>p\<in>set reads. \<forall>h\<in>set haplotypes.
           \<exists>ll. log_likelihoods c' (fst p) h = Inr ll \<and> length ll = length (snd p)"
proof (intro ballI)
  fix p h assume p: "p \<in> set reads" and h: "h \<in> set haplotypes"
  let ?ranges = "map snd reads"
  let ?rh = "map (map kh) ?ranges"
  let ?idx = "map_of (zip (map fst reads) [0..<length reads])"
  from assms(3) assms(1) obtain m where
      m: "populate_haplotypes lp (length reads) ?rh ?ranges haplotypes Map.empty = Inr m"
    and c': "c' = c \<lparr> cache := m, sample_indices := ?idx, read_iterators := [] \<rparr>"
    by (auto simp: populate_def set_read_iterators_and_sample_indices_def Let_def
        split: if_splits sum.splits)
  from populate_haplotypes_entries[OF m] h obtain vs where vs: "m h = Some vs"
    and lvs: "length vs = length reads"
    and each: "\<forall>i<length ?ranges. length (vs ! i) = length (?ranges ! i)" by blast
  from p obtain i where i: "i < length reads" and pi: "reads ! i = p"
    by (auto simp: in_set_conv_nth)
  have "?idx (map fst reads ! i) = Some ([0..<length reads] ! i)"
    using assms(2) i by (intro map_of_zip_nth) simp_all
  then have idx: "?idx (fst p) = Some i" using i pi by simp
  have "length (vs ! i) = length (snd p)" using each i pi by simp
  then show "\<exists>ll. log_likelihoods c' (fst p) h = Inr ll \<and> length ll = length (snd p)"
    using vs idx lvs i by (simp add: log_likelihoods_def c')
qed

lemma populate_log_likelihoods_length_example:
  "\<exists>c' ll. populate length_hashes equal_log_probability HaplotypeLikelihoodCache
              [(''normal'', [''ACGT'', ''ACAT'']), (''tumour'', [''ACGT''])] [''ACGT'', ''ACAT'']
            = Inr c'
         \<and> log_likelihoods c' ''normal'' ''ACAT'' = Inr ll \<and> length ll = 2"
proof -
  let ?reads = "[(''normal'', [''ACGT'', ''ACAT'']), (''tumour'', [''ACGT''])]"
  let ?c = "HaplotypeLikelihoodCache :: (string, string, string) haplotype_likelihood_cache"
  have e: "read_iterators ?c = []" by (simp add: HaplotypeLikelihoodCache_def)
  have d: "distinct (map fst ?reads)" by simp
  have "\<exists>c'. populate length_hashes equal_log_probability ?c ?reads [''ACGT'', ''ACAT''] = Inr c'"
    by (rule populate_returns[OF e]) simp_all
  then obtain c' where c': "populate length_hashes equal_log_probability ?c ?reads
                               [''ACGT'', ''ACAT''] = Inr c'" ..
  from populate_log_likelihoods_length[OF e d c']
  have "\<exists>ll. log_likelihoods c' (fst (''normal'', [''ACGT'', ''ACAT''])) ''ACAT'' = Inr ll
           \<and> length ll = length (snd (''normal'', [''ACGT'', ''ACAT'']))"
    by simp
  with c' show ?thesis by auto
qed

text \<open>
  On a new cache, \<^verbatim>\<open>populate\<close> has no result as soon as a sample has more reads than the
  sample that the read map iterates first: \<^verbatim>\<open>read_hash_itr\<close> is never advanced, and
  \<^verbatim>\<open>std::transform\<close> reads the hashes of the first sample past their end.
\<close>

lemma haplotype_log_likelihoods_no_result:
  "\<exists>t\<in>set ranges. length fh < length t \<Longrightarrow>
     haplotype_log_likelihoods lp h fh ranges = Inl UndefinedBehaviour"
proof (induction ranges)
  case Nil
  then show ?case by simp
next
  case (Cons t ts)
  show ?case
  proof (cases "length fh < length t")
    case True
    then show ?thesis by (simp add: sample_log_likelihoods_def)
  next
    case False
    with Cons.prems have "\<exists>t\<in>set ts. length fh < length t" by auto
    from Cons.IH[OF this] False show ?thesis by (simp add: sample_log_likelihoods_def)
  qed
qed

lemma populate_no_result:
  assumes "read_iterators c = []" "haplotypes \<noteq> []"
    and "\<exists>p\<in>set reads. length (snd (hd reads)) < length (snd p)"
  shows "populate kh lp c reads haplotypes = Inl UndefinedBehaviour"
proof -
  from assms(3) obtain r rs where reads: "reads = r # rs" by (cases reads) auto
  let ?ranges = "map snd reads"
  let ?rh = "map (map kh) ?ranges"
  have fh: "(if ?rh = [] then [] else hd ?rh) = map kh (snd r)" by (simp add: reads)
  have "\<exists>t\<in>set ?ranges. length (map kh (snd r)) < length t"
    using assms(3) unfolding reads by auto
  then have l: "haplotype_log_likelihoods lp h (map kh (snd r)) ?ranges
                  = Inl UndefinedBehaviour" for h
    by (rule haplotype_log_likelihoods_no_result)
  obtain h hs where hs: "haplotypes = h # hs" using assms(2) by (cases haplotypes) auto
  have ph: "populate_haplotypes lp (length reads) ?rh ?ranges haplotypes Map.empty
          = Inl UndefinedBehaviour"
    unfolding hs populate_haplotypes.simps fh l by simp
  let ?c1 = "set_read_iterators_and_sample_indices (c \<lparr> cache := Map.empty \<rparr>) reads"
  have c1: "read_iterators ?c1 = ?ranges" "cache ?c1 = Map.empty"
    using assms(1) by (simp_all add: set_read_iterators_and_sample_indices_def)
  show ?thesis
    unfolding populate_def Let_def c1 ph using assms(2) by simp
qed

text \<open>
  C9 does not hold of the code. For a read map whose first sample has one read and whose
  second sample has two, and one haplotype, \<^verbatim>\<open>populate\<close> on a new cache walks the two reads
  of the second sample together with the one read hash of the first sample and reads past
  its end: there is no cache after the call, and so no vector of two log likelihoods for
  the second sample. With the samples in the other order of iteration the call returns.
\<close>

theorem populate_read_hashes_defect:
  "populate length_hashes equal_log_probability HaplotypeLikelihoodCache
     [(''normal'', [''ACGT'']), (''tumour'', [''ACGT'', ''ACAT''])] [''ACGT'']
   = Inl UndefinedBehaviour
   \<and> isl (populate length_hashes equal_log_probability HaplotypeLikelihoodCache
           [(''tumour'', [''ACGT'', ''ACAT'']), (''normal'', [''ACGT''])] [''ACGT'']) = False"
  by (simp add: populate_def set_read_iterators_and_sample_indices_def
      HaplotypeLikelihoodCache_def sample_log_likelihoods_def Let_def)

subsection \<open>Likelihood of a triploid genotype with three distinct haplotypes\<close>


lemma triallelic_cache_populated:
  "populate length_hashes equal_log_probability HaplotypeLikelihoodCache
     [(''sample'', [''ACGT''])] [''ACAT'', ''ACGT'', ''TCGT''] = Inr triallelic_cache"
  by (simp add: populate_def set_read_iterators_and_sample_indices_def Let_def
      HaplotypeLikelihoodCache_def sample_log_likelihoods_def equal_log_probability_def
      triallelic_cache_def fun_upd_twist)

lemma lse3: "log_sum_exp [ln (1 / 2), 0, 0] = ln (5 / 2)"
proof -
  have "ln (1 / 2 :: real) < 0" by simp
  then have m: "foldl max (ln (1 / 2)) [ln (1 / 2), 0, 0 :: real] = 0" by (simp add: max_def)
  have "exp (ln (1 / 2 :: real)) = 1 / 2" by simp
  then show ?thesis unfolding log_sum_exp_def by (simp add: m Let_def)
qed

text \<open>
  C1 does not hold of the code. For one read \<open>ACGT\<close> and the triploid genotype of the three
  distinct haplotypes \<open>ACAT\<close>, \<open>ACGT\<close>, \<open>TCGT\<close>, with the read likelihoods 1/2, 1 and 1/2,
  \<^verbatim>\<open>log_likelihood\<close> returns \<open>ln ((1/2 + 1 + 1) / 3)\<close>, counting the second haplotype twice
  and the third not at all, where the formula over the three haplotypes gives
  \<open>ln ((1/2 + 1 + 1/2) / 3)\<close>.
\<close>

theorem log_likelihood_triallelic_defect:
  "log_likelihood (FixedPloidyGenotypeLikelihoodModel 3 triallelic_cache) ''sample''
       [''ACAT'', ''ACGT'', ''TCGT''] = Inr (ln (5 / 6))
   \<and> triploid_formula triallelic_cache ''sample'' [''ACAT'', ''ACGT'', ''TCGT''] = Inr (ln (2 / 3))
   \<and> ln (5 / 6) \<noteq> (ln (2 / 3) :: real)
   \<and> zygosity [''ACAT'', ''ACGT'', ''TCGT''] = 3"
proof (intro conjI)
  have l0: "log_likelihoods triallelic_cache ''sample'' ''ACAT'' = Inr [ln (1 / 2)]"
    and l1: "log_likelihoods triallelic_cache ''sample'' ''ACGT'' = Inr [0]"
    and l2: "log_likelihoods triallelic_cache ''sample'' ''TCGT'' = Inr [ln (1 / 2)]"
    by (simp_all add: log_likelihoods_def triallelic_cache_def)
  have z: "zygosity [''ACAT'', ''ACGT'', ''TCGT''] = 3" by (simp add: zygosity_def)
  show "zygosity [''ACAT'', ''ACGT'', ''TCGT''] = 3" by (rule z)
  have "ln (5 / 2 / 3 :: real) = ln (5 / 2) - ln 3" by (rule ln_divide_pos) simp_all
  moreover have "(5 / 2 / 3 :: real) = 5 / 6" by simp
  ultimately have "ln (5 / 2 :: real) - ln 3 = ln (5 / 6)" by (simp only:)
  then show "log_likelihood (FixedPloidyGenotypeLikelihoodModel 3 triallelic_cache) ''sample''
       [''ACAT'', ''ACGT'', ''TCGT''] = Inr (ln (5 / 6))"
    by (simp add: log_likelihood_def log_likelihood_triploid_def is_homozygous_def z
        FixedPloidyGenotypeLikelihoodModel_def haplotype_lls_def genotype_at_def bind_error_def
        l0 l1 lse3)
  have "exp (ln (1 / 2 :: real)) = 1 / 2" by simp
  then show "triploid_formula triallelic_cache ''sample'' [''ACAT'', ''ACGT'', ''TCGT'']
               = Inr (ln (2 / 3))"
    by (simp add: triploid_formula_def genotype_at_def bind_error_def l0 l1 l2)
  show "ln (5 / 6) \<noteq> (ln (2 / 3) :: real)" by simp
qed

subsection \<open>Conditional log likelihood of a read\<close>

lemma target_emission_lhs:
  "target_emission_probability (fst (pair_hmm_models read hap)) = 1 / 4"
  by (simp add: pair_hmm_models_def Let_def)

lemma log_probability_miss:
  "\<not> is_cached read_cache read hap \<Longrightarrow>
     fst (log_probability viterbi read hap read_cache) = conditional_log_viterbi viterbi read hap"
proof -
  assume miss: "\<not> is_cached read_cache read hap"
  obtain l m r where p: "pair_hmm_models read hap = (l, m, r)"
    by (cases "pair_hmm_models read hap") auto
  with target_emission_lhs[of read hap] have "target_emission_probability l = 1 / 4" by simp
  then show ?thesis
    using miss p by (simp add: log_probability_def conditional_log_viterbi_def Let_def)
qed

lemma log_probability_ok:
  assumes "cache_ok viterbi read_cache"
  shows "fst (log_probability viterbi read hap read_cache) = conditional_log_viterbi viterbi read hap"
    and "cache_ok viterbi (snd (log_probability viterbi read hap read_cache))"
proof -
  show "fst (log_probability viterbi read hap read_cache) = conditional_log_viterbi viterbi read hap"
  proof (cases "is_cached read_cache read hap")
    case True
    then obtain m v where "read_cache read = Some m" "m hap = Some v"
      by (auto simp: is_cached_def split: option.splits)
    with assms True show ?thesis
      by (auto simp: log_probability_def get_cached_def cache_ok_def)
  next
    case False
    then show ?thesis by (rule log_probability_miss)
  qed
  show "cache_ok viterbi (snd (log_probability viterbi read hap read_cache))"
  proof (cases "is_cached read_cache read hap")
    case True
    with assms show ?thesis by (simp add: log_probability_def)
  next
    case False
    have v: "fst (log_probability viterbi read hap read_cache) = conditional_log_viterbi viterbi read hap"
      using False by (rule log_probability_miss)
    have s: "snd (log_probability viterbi read hap read_cache)
               = cache_value read_cache read hap (conditional_log_viterbi viterbi read hap)"
      using False v by (simp add: log_probability_def Let_def split: prod.splits)
    show ?thesis unfolding s using assms
      by (auto simp: cache_ok_def cache_value_def Let_def split: option.splits if_splits)
  qed
qed

lemma cache_after_ok: "cache_ok viterbi (cache_after viterbi calls)"
proof (induction calls rule: rev_induct)
  case Nil
  then show ?case by (simp add: cache_after_def cache_ok_def SingleReadModel_def)
next
  case (snoc c calls)
  obtain r h where c: "c = (r, h)" by (cases c)
  have "cache_after viterbi (calls @ [c])
          = snd (log_probability viterbi r h (cache_after viterbi calls))"
    by (simp add: cache_after_def c)
  with log_probability_ok(2)[OF snoc.IH] show ?case by simp
qed

lemma match_end_bound:
  "end_probability (fst (snd (pair_hmm_models read hap))) \<le> 97 / 100"
proof (cases "overlaps (read_region read) (hap_region hap)")
  case True
  have "min (1 / (real (region_size (get_overlapped (read_region read) (hap_region hap))) + 1))
            (97 / 100 :: real) \<le> 97 / 100"
    by (rule min.cobounded2)
  with True show ?thesis by (simp add: pair_hmm_models_def Let_def)
next
  case False
  then show ?thesis by (simp add: pair_hmm_models_def Let_def)
qed

text \<open>
  C8. On a model that has served any sequence of calls, \<^verbatim>\<open>log_probability\<close> returns, for
  every read and haplotype, the joint log-Viterbi score of the three models minus the
  length of the haplotype sequence times \<open>ln\<close> of the target emission probability 0.25;
  the gap open and gap extend probabilities are 0.015 and 0.020, and the end probability
  of the match model is at most \<open>min (1 - 2 * gap_open) (1 - gap_extend)\<close>.
\<close>

theorem log_probability_conditional:
  "fst (log_probability viterbi read hap (cache_after viterbi calls))
     = viterbi (hap_sequence hap) (read_sequence read) (read_qualities read)
         (fst (pair_hmm_models read hap)) (fst (snd (pair_hmm_models read hap)))
         (snd (snd (pair_hmm_models read hap)))
       - real (length (hap_sequence hap)) * ln (25 / 100)
   \<and> target_emission_probability (fst (pair_hmm_models read hap)) = 25 / 100
   \<and> gap_open_probability (fst (snd (pair_hmm_models read hap))) = 15 / 1000
   \<and> gap_extend_probability (fst (snd (pair_hmm_models read hap))) = 20 / 1000
   \<and> end_probability (fst (snd (pair_hmm_models read hap)))
       \<le> min (1 - 2 * gap_open_probability (fst (snd (pair_hmm_models read hap))))
             (1 - gap_extend_probability (fst (snd (pair_hmm_models read hap))))"
proof (intro conjI)
  show "fst (log_probability viterbi read hap (cache_after viterbi calls))
     = viterbi (hap_sequence hap) (read_sequence read) (read_qualities read)
         (fst (pair_hmm_models read hap)) (fst (snd (pair_hmm_models read hap)))
         (snd (snd (pair_hmm_models read hap)))
       - real (length (hap_sequence hap)) * ln (25 / 100)"
    using log_probability_ok(1)[OF cache_after_ok, of viterbi read hap calls]
    by (simp add: conditional_log_viterbi_def)
  show go: "gap_open_probability (fst (snd (pair_hmm_models read hap))) = 15 / 1000"
    by (simp add: pair_hmm_models_def Let_def)
  show ge: "gap_extend_probability (fst (snd (pair_hmm_models read hap))) = 20 / 1000"
    by (simp add: pair_hmm_models_def Let_def)
  show "target_emission_probability (fst (pair_hmm_models read hap)) = 25 / 100"
    by (simp add: pair_hmm_models_def Let_def)
  show "end_probability (fst (snd (pair_hmm_models read hap)))
       \<le> min (1 - 2 * gap_open_probability (fst (snd (pair_hmm_models read hap))))
             (1 - gap_extend_probability (fst (snd (pair_hmm_models read hap))))"
    unfolding go ge using match_end_bound[of read hap] by simp
qed

text \<open>
  A second call for a read of four bases within a haplotype of six, answered from the
  cache: the score of the four bases minus six times \<open>ln (1 / 4)\<close>, with the end
  probability \<open>1 / 5\<close> of the match model for the overlap of four bases.
\<close>

theorem log_probability_conditional_witness:
  "fst (log_probability match_viterbi read_ACGT haplotype_ACGTAC
          (cache_after match_viterbi [(read_ACGT, haplotype_ACGTAC)]))
     = 4 * ln (1 / 4) - 6 * ln (1 / 4)
   \<and> end_probability (fst (snd (pair_hmm_models read_ACGT haplotype_ACGTAC))) = 1 / 5"
  using log_probability_conditional
          [of match_viterbi read_ACGT haplotype_ACGTAC "[(read_ACGT, haplotype_ACGTAC)]"]
  by (simp add: match_viterbi_def read_ACGT_def haplotype_ACGTAC_def pair_hmm_models_def
        overlaps_def get_overlapped_def get_encompassing_def begins_before_def ends_before_def
        get_left_overhang_def get_right_overhang_def region_size_def Let_def)

subsection \<open>The segregating-sites probability in real space and in log space\<close>

lemma segregating_sum_one:
  assumes "0 < theta"
  shows "segregating_sum theta 1 k = (1 / (theta + 1)) * (theta / (theta + 1)) ^ k"
  by (simp add: segregating_sum_def)

lemma choose_shift: "real (m choose j) * (real m - real j) = real m * real ((m - 1) choose j)"
proof (cases "j \<le> m")
  case True
  have "(m - j) * (m choose j) = m * ((m - 1) choose j)" by (rule binomial_absorb_comp)
  then have "real ((m - j) * (m choose j)) = real (m * ((m - 1) choose j))" by simp
  then show ?thesis using True by (simp add: of_nat_diff mult.commute)
next
  case False
  then show ?thesis by (simp add: binomial_eq_0)
qed

lemma segregating_sum_upper:
  assumes "1 \<le> m"
  shows "segregating_sum theta (m - 1) k =
     (\<Sum>j\<le>m. (- 1) ^ Suc j * real ((m - 1) choose j) * (real j / (theta + real j))
               * (theta / (theta + real j)) ^ k)"
proof -
  obtain m' where m: "m = Suc m'" using assms by (cases m) auto
  show ?thesis unfolding m by (simp add: segregating_sum_def binomial_eq_0)
qed

lemma segregating_sum_step:
  assumes "0 < theta" "1 \<le> m"
  shows "segregating_sum theta m (Suc k)
           = (theta / (theta + real m)) * segregating_sum theta m k
             + (real m / (theta + real m)) * segregating_sum theta (m - 1) (Suc k)"
proof -
  let ?x = "theta / (theta + real m)"
  let ?p = "real m / (theta + real m)"
  have summand: "(- 1) ^ Suc j * real (m choose j) * (real j / (theta + real j))
                 * (theta / (theta + real j)) ^ Suc k
            = ?x * ((- 1) ^ Suc j * real (m choose j) * (real j / (theta + real j))
                 * (theta / (theta + real j)) ^ k)
              + ?p * ((- 1) ^ Suc j * real ((m - 1) choose j) * (real j / (theta + real j))
                 * (theta / (theta + real j)) ^ Suc k)" for j
  proof -
    let ?y = "theta / (theta + real j)"
    have tj: "theta + real j > 0" and tm: "theta + real m > 0" using assms by auto
    have "real (m choose j) * (?y - ?x) = ?p * real ((m - 1) choose j) * ?y"
    proof -
      have "?y - ?x = ?y * ((real m - real j) / (theta + real m))"
        using tj tm by (simp add: field_simps)
      then have "real (m choose j) * (?y - ?x)
                   = (real (m choose j) * (real m - real j)) * (?y / (theta + real m))"
        by simp
      also have "\<dots> = (real m * real ((m - 1) choose j)) * (?y / (theta + real m))"
        by (simp only: choose_shift)
      finally show ?thesis by simp
    qed
    then have "real (m choose j) * ?y = ?x * real (m choose j) + ?p * real ((m - 1) choose j) * ?y"
      by (simp add: algebra_simps)
    then have "(- 1) ^ Suc j * (real j / (theta + real j)) * ?y ^ k * (real (m choose j) * ?y)
             = (- 1) ^ Suc j * (real j / (theta + real j)) * ?y ^ k
                 * (?x * real (m choose j) + ?p * real ((m - 1) choose j) * ?y)"
      by simp
    then show ?thesis by (simp add: algebra_simps)
  qed
  show ?thesis
    unfolding segregating_sum_upper[OF assms(2)]
    unfolding segregating_sum_def sum_distrib_left sum.distrib[symmetric]
    by (rule sum.cong[OF refl]) (rule summand)
qed

lemma alternating_linear_sum:
  assumes "2 \<le> m"
  shows "(\<Sum>j\<le>m. (- 1) ^ Suc j * (real j * real (m choose j))) = 0"
proof -
  obtain m' where m: "m = Suc m'" and m': "0 < m'" using assms by (cases m) auto
  have "(\<Sum>j\<le>Suc m'. (- 1) ^ Suc j * (real j * real (Suc m' choose j)))
          = (\<Sum>i\<le>m'. (- 1) ^ Suc (Suc i) * (real (Suc i) * real (Suc m' choose Suc i)))"
    by (subst sum.atMost_Suc_shift) simp
  also have "\<dots> = (\<Sum>i\<le>m'. real (Suc m') * ((- 1) ^ i * real (m' choose i)))"
  proof (rule sum.cong[OF refl])
    fix i
    have "Suc i * (Suc m' choose Suc i) = Suc m' * (m' choose i)"
      using binomial_absorption[of i "Suc m'"] by simp
    then have "real (Suc i) * real (Suc m' choose Suc i) = real (Suc m') * real (m' choose i)"
      by (metis of_nat_mult)
    then show "(- 1) ^ Suc (Suc i) * (real (Suc i) * real (Suc m' choose Suc i))
                 = real (Suc m') * ((- 1) ^ i * real (m' choose i))"
      by simp
  qed
  also have "\<dots> = real (Suc m') * (\<Sum>i\<le>m'. (- 1) ^ i * real (m' choose i))"
    by (simp add: sum_distrib_left)
  also have "\<dots> = 0"
    using choose_alternating_sum[OF m', where ?'a = real] by simp
  finally show ?thesis unfolding m .
qed

lemma segregating_sum_zero_step:
  assumes "0 < theta" "2 \<le> m"
  shows "segregating_sum theta m 0 = (real m / (theta + real m)) * segregating_sum theta (m - 1) 0"
proof -
  let ?p = "real m / (theta + real m)"
  have m1: "1 \<le> m" using assms by simp
  have summand: "(- 1) ^ Suc j * real (m choose j) * (real j / (theta + real j))
                 - ?p * ((- 1) ^ Suc j * real ((m - 1) choose j) * (real j / (theta + real j)))
               = (1 / (theta + real m)) * ((- 1) ^ Suc j * (real j * real (m choose j)))" for j
  proof -
    have tj: "theta + real j > 0" and tm: "theta + real m > 0" using assms by auto
    have "real m * real ((m - 1) choose j) = real (m choose j) * (real m - real j)"
      by (simp only: choose_shift)
    then have "real (m choose j) - ?p * real ((m - 1) choose j)
                 = real (m choose j) * ((theta + real j) / (theta + real m))"
      using tm by (simp add: field_simps)
    then have "(- 1) ^ Suc j * (real j / (theta + real j))
                  * (real (m choose j) - ?p * real ((m - 1) choose j))
             = (- 1) ^ Suc j * (real j / (theta + real j))
                  * (real (m choose j) * ((theta + real j) / (theta + real m)))"
      by simp
    also have "\<dots> = (- 1) ^ Suc j * real (m choose j)
                  * ((real j / (theta + real j)) * ((theta + real j) / (theta + real m)))"
      by simp
    also have "(real j / (theta + real j)) * ((theta + real j) / (theta + real m))
                 = real j / (theta + real m)"
      using tj by simp
    finally have "(- 1) ^ Suc j * (real j / (theta + real j))
                  * (real (m choose j) - ?p * real ((m - 1) choose j))
                = (- 1) ^ Suc j * real (m choose j) * (real j / (theta + real m))" .
    then show ?thesis by (simp add: algebra_simps)
  qed
  have "segregating_sum theta m 0 - ?p * segregating_sum theta (m - 1) 0
          = (\<Sum>j\<le>m. (1 / (theta + real m)) * ((- 1) ^ Suc j * (real j * real (m choose j))))"
    unfolding segregating_sum_upper[OF m1]
    unfolding segregating_sum_def sum_distrib_left sum_subtractf[symmetric]
    by (rule sum.cong[OF refl]) (use summand in simp)
  also have "\<dots> = 0"
    unfolding sum_distrib_left[symmetric] using alternating_linear_sum[OF assms(2)] by simp
  finally show ?thesis by simp
qed

lemma segregating_sum_pos:
  assumes "0 < theta" "1 \<le> m"
  shows "0 < segregating_sum theta m k"
  using assms(2)
proof (induction m arbitrary: k rule: nat_induct_at_least)
  case base
  have "0 < (1 / (theta + 1)) * (theta / (theta + 1)) ^ k" using assms(1) by simp
  then show ?case by (simp only: segregating_sum_one[OF assms(1)])
next
  case (Suc m)
  have two: "2 \<le> Suc m" using Suc.hyps by simp
  have one: "1 \<le> Suc m" by simp
  have x: "0 < theta / (theta + real (Suc m))" and p: "0 < real (Suc m) / (theta + real (Suc m))"
    using assms(1) by simp_all
  show ?case
  proof (induction k)
    case 0
    have "segregating_sum theta (Suc m) 0
            = (real (Suc m) / (theta + real (Suc m))) * segregating_sum theta m 0"
      using segregating_sum_zero_step[OF assms(1) two] by simp
    moreover have "0 < (real (Suc m) / (theta + real (Suc m))) * segregating_sum theta m 0"
      using p Suc.IH[of 0] by (rule mult_pos_pos)
    ultimately show ?case by (simp only:)
  next
    case (Suc k)
    have "segregating_sum theta (Suc m) (Suc k)
            = (theta / (theta + real (Suc m))) * segregating_sum theta (Suc m) k
              + (real (Suc m) / (theta + real (Suc m))) * segregating_sum theta m (Suc k)"
      using segregating_sum_step[OF assms(1) one, of k] by simp
    moreover have "0 < (theta / (theta + real (Suc m))) * segregating_sum theta (Suc m) k"
      using x Suc.IH by (rule mult_pos_pos)
    moreover have "0 < (real (Suc m) / (theta + real (Suc m))) * segregating_sum theta m (Suc k)"
      using p \<open>\<And>k. 0 < segregating_sum theta m k\<close> by (rule mult_pos_pos)
    ultimately show ?case by linarith
  qed
qed

lemma coalescent_sum_segregating:
  assumes "1 \<le> n"
  shows "coalescent_sum n k theta = segregating_sum theta (n - 1) k"
proof -
  obtain m where n: "n = Suc m" using assms by (cases n) auto
  let ?f = "\<lambda>j. (- 1) ^ Suc j * real (m choose j) * (real j / (theta + real j))
               * (theta / (theta + real j)) ^ k"
  have "coalescent_sum (Suc m) k theta = (\<Sum>i = Suc 1..Suc m. ?f (i - 1))"
    unfolding coalescent_sum_def
    by (rule sum.cong) (auto simp: numeral_2_eq_2)
  also have "\<dots> = (\<Sum>j = 1..m. ?f j)"
    by (subst sum.shift_bounds_cl_Suc_ivl) simp
  also have "\<dots> = (\<Sum>j\<le>m. ?f j)"
  proof -
    have "{..m} = insert 0 {1..m}" by auto
    then show ?thesis by simp
  qed
  finally show ?thesis unfolding n by (simp add: segregating_sum_def)
qed

lemma coalescent_sum_pos:
  assumes "2 \<le> n" "0 < theta"
  shows "0 < coalescent_sum n k theta"
proof -
  have "1 \<le> n" "1 \<le> n - 1" using assms by auto
  then show ?thesis
    using segregating_sum_pos[OF assms(2), of "n - 1" k] by (simp add: coalescent_sum_segregating)
qed

lemma powm1_power: "powm1 i = (- 1) ^ i"
  by (cases "even i") (auto simp: powm1_def even_iff_mod_2_eq_zero)

lemma real_space_term_eq:
  assumes "1 \<le> i"
  shows "real_space_term n k theta i
           = (- 1) ^ i * real ((n - 1) choose (i - 1)) * (real (i - 1) / (theta + real (i - 1)))
               * (theta / (theta + real (i - 1))) ^ k"
proof -
  have e: "theta + real i - 1 = theta + real (i - 1)" using assms by (simp add: of_nat_diff)
  show ?thesis unfolding real_space_term_def powm1_power binom_def e by (rule refl)
qed

lemma real_space_sum:
  "sum_list (map (real_space_term n k theta) [2..<Suc n]) = coalescent_sum n k theta"
proof -
  have "sum_list (map (real_space_term n k theta) [2..<Suc n])
          = sum (real_space_term n k theta) {2..n}"
    by (simp only: interv_sum_list_conv_sum_set_nat set_upt atLeastLessThanSuc_atLeastAtMost)
  also have "\<dots> = coalescent_sum n k theta"
    unfolding coalescent_sum_def by (rule sum.cong[OF refl]) (simp add: real_space_term_eq)
  finally show ?thesis .
qed

lemma foldl_plus_sum_list:
  "foldl (\<lambda>result i. result + f i) a xs = a + sum_list (map f xs)" for a :: real
  by (induction xs arbitrary: a) simp_all

lemma coalescent_real_space_value:
  assumes "2 \<le> n" "0 < theta"
  shows "coalescent_real_space exact_arithmetic n k theta = Some (ln (coalescent_sum n k theta))"
proof -
  have "foldl (\<lambda>result i. plus_real exact_arithmetic result (real_space_term n k theta i)) 0
          [2..<Suc n] = coalescent_sum n k theta"
    by (simp only: exact_arithmetic_def arithmetic.simps foldl_plus_sum_list real_space_sum
        add_0_left)
  then show ?thesis
    using coalescent_sum_pos[OF assms, of k]
    unfolding coalescent_real_space_def std_log_def by simp
qed

lemma exp_log_binom:
  assumes "b \<le> a"
  shows "exp (log_binom a b) = real (a choose b)"
proof -
  have "exp (log_binom a b) = fact a / (fact b * fact (a - b))"
    by (simp add: log_binom_def log_factorial_def exp_diff exp_add)
  also have "\<dots> = real (a choose b)" using assms by (simp add: binomial_fact)
  finally show ?thesis .
qed

lemma complex_log_minus_one: "complex_log (- 1) = Complex 0 pi"
proof -
  have "Arg (- 1) = pi"
    by (rule cis_Arg_unique) simp_all
  then show ?thesis by (simp add: complex_log_def)
qed

lemma exp_i_pi_times: "exp (Complex 0 pi * of_nat i) = (- 1) ^ i"
proof -
  have "Complex 0 pi * of_nat i = \<i> * of_real (real i * pi)"
    by (simp add: complex_eq_iff)
  then have "exp (Complex 0 pi * of_nat i) = cis (real i * pi)"
    by (simp only: cis_conv_exp)
  also have "\<dots> = (cis pi) ^ i" by (simp only: DeMoivre)
  also have "\<dots> = (- 1) ^ i" by (simp only: cis_pi)
  finally show ?thesis .
qed

text \<open>The real part of an entry of \<^verbatim>\<open>tmp\<close>.\<close>

lemma log_space_term_value:
  assumes "2 \<le> i" "i \<le> n" "0 < theta"
  shows "\<exists>z. log_space_term n k theta i = Some z \<and> exp z = of_real (real_space_term n k theta i)"
proof -
  let ?a = "real (i - 1) / (theta + real i - 1)"
  let ?y = "theta / (theta + real i - 1)"
  have d: "0 < theta + real i - 1" using assms by simp
  have a: "0 < ?a" using assms d by simp
  have y: "0 < ?y" using assms d by simp
  let ?r = "log_binom (n - 1) (i - 1) + ln ?a + real k * ln ?y"
  let ?z = "complex_log (- 1) * of_nat i + of_real (log_binom (n - 1) (i - 1))
             + of_real (ln ?a) + of_real (real k * ln ?y)"
  have t: "log_space_term n k theta i = Some ?z"
    unfolding log_space_term_def std_log_def using a y by (simp only: if_True Option.bind.bind_lunit)
  have "i - 1 \<le> n - 1" using assms by simp
  then have e3: "exp (log_binom (n - 1) (i - 1)) = real ((n - 1) choose (i - 1))"
    by (rule exp_log_binom)
  have e1: "exp (ln ?a) = ?a" using a by (rule exp_ln)
  have "exp (real k * ln ?y) = exp (ln ?y) ^ k" by (rule exp_of_nat_mult)
  also have "exp (ln ?y) = ?y" using y by (rule exp_ln)
  finally have e2: "exp (real k * ln ?y) = ?y ^ k" .
  have er: "exp ?r = real ((n - 1) choose (i - 1)) * ?a * ?y ^ k"
    by (simp only: exp_add e1 e2 e3)
  have "?z = Complex 0 pi * of_nat i + of_real ?r"
    by (simp add: complex_log_minus_one)
  then have "exp ?z = (- 1) ^ i * of_real (exp ?r)"
    by (simp only: exp_add exp_i_pi_times exp_of_real)
  also have "\<dots> = of_real ((- 1) ^ i * exp ?r)" by simp
  also have "(- 1) ^ i * exp ?r = real_space_term n k theta i"
    unfolding er real_space_term_def powm1_power binom_def by (simp only: mult.assoc)
  finally have "exp ?z = of_real (real_space_term n k theta i)" .
  with t show ?thesis by (intro exI[of _ ?z] conjI)
qed

lemma those_map_Some:
  assumes "\<forall>x\<in>set xs. \<exists>z. f x = Some z \<and> P x z"
  shows "\<exists>zs. those (map f xs) = Some zs \<and> list_all2 P xs zs"
  using assms
proof (induction xs)
  case Nil
  then show ?case by simp
next
  case (Cons x xs)
  then obtain z zs where "f x = Some z" "P x z" "those (map f xs) = Some zs" "list_all2 P xs zs"
    by auto
  then show ?case by simp
qed

lemma sum_exp_list:
  assumes "list_all2 (\<lambda>i z. exp z = of_real (g i)) is zs"
  shows "sum_list (map exp zs) = (of_real (sum_list (map g is)) :: complex)"
  using assms by (induction rule: list_all2_induct) simp_all

lemma foldl_shifted_exp:
  "foldl (\<lambda>curr x. curr + exp (x - mx)) c zs = c + exp (- mx) * sum_list (map exp zs)"
  for mx :: complex
proof (induction zs arbitrary: c)
  case Nil
  then show ?case by simp
next
  case (Cons z zs)
  have "exp (z - mx) = exp (- mx) * exp z" by (simp add: exp_diff exp_minus field_simps)
  then show ?case by (simp add: Cons.IH algebra_simps)
qed

lemma coalescent_log_space_value:
  assumes "2 \<le> n" "0 < theta"
  shows "coalescent_log_space exact_arithmetic n k theta = Some (ln (coalescent_sum n k theta))"
proof -
  let ?S = "coalescent_sum n k theta"
  have S: "0 < ?S" by (rule coalescent_sum_pos[OF assms])
  have "\<forall>i\<in>set [2..<Suc n]. \<exists>z. log_space_term n k theta i = Some z
            \<and> exp z = of_real (real_space_term n k theta i)"
    using log_space_term_value[OF _ _ assms(2)] by (auto simp del: upt_Suc)
  from those_map_Some[OF this]
  obtain tmp where tmp: "those (map (log_space_term n k theta) [2..<Suc n]) = Some tmp"
    and all: "list_all2 (\<lambda>i z. exp z = of_real (real_space_term n k theta i)) [2..<Suc n] tmp"
    by blast
  from all have "length tmp = length [2..<Suc n]" by (simp only: list_all2_lengthD)
  then have "length tmp = n - 1" by (simp del: upt_Suc)
  then have ne: "tmp \<noteq> []" using assms(1) by auto
  have sum: "sum_list (map exp tmp) = of_real ?S"
    using sum_exp_list[OF all] by (simp only: real_space_sum)
  define mx where "mx = max_element_real tmp"
  define s where "s = foldl (\<lambda>curr x. curr + exp (x - mx)) 0 tmp"
  have s: "s = exp (- mx) * of_real ?S" by (simp add: s_def foldl_shifted_exp sum)
  then have nz: "s \<noteq> 0" using S by simp
  have "cmod s = exp (- Re mx) * ?S" using S by (simp add: s norm_mult)
  then have "ln (cmod s) = - Re mx + ln ?S" using S by (simp add: ln_mult_pos)
  then have re: "Re (mx + complex_log s) = ln ?S" by (simp add: complex_log_def)
  have cl: "complex_log_sum_exp exact_arithmetic tmp = Some (mx + complex_log s)"
    using ne nz by (simp add: complex_log_sum_exp_def exact_arithmetic_def mx_def s_def Let_def)
  show ?thesis unfolding coalescent_log_space_def tmp
    by (simp only: Option.bind.bind_lunit cl re)
qed

text \<open>
  C5. For \<open>n \<ge> 2\<close> and \<open>theta > 0\<close> the sum of the specification is positive, so that its
  logarithm exists, and in exact arithmetic \<^verbatim>\<open>coalescent_real_space\<close> and
  \<^verbatim>\<open>coalescent_log_space\<close> both return that logarithm: the two forms compute the same
  mathematical value. For all arguments and every arithmetic of the accumulations,
  \<^verbatim>\<open>coalescent\<close> is the real-space form when \<open>k \<le> 80\<close> and the complex log-sum-exp form
  otherwise.
\<close>

theorem coalescent_real_and_log_space:
  "(2 \<le> n \<and> 0 < theta \<longrightarrow>
      0 < coalescent_sum n k theta
      \<and> coalescent_real_space exact_arithmetic n k theta = Some (ln (coalescent_sum n k theta))
      \<and> coalescent_log_space exact_arithmetic n k theta = Some (ln (coalescent_sum n k theta)))
   \<and> coalescent ar n' k' theta'
       = (if k' \<le> 80 then coalescent_real_space ar n' k' theta'
          else coalescent_log_space ar n' k' theta')"
proof (intro conjI impI)
  assume h: "2 \<le> n \<and> 0 < theta"
  then have n: "2 \<le> n" and t: "0 < theta" by simp_all
  show "0 < coalescent_sum n k theta" by (rule coalescent_sum_pos[OF n t])
  show "coalescent_real_space exact_arithmetic n k theta = Some (ln (coalescent_sum n k theta))"
    by (rule coalescent_real_space_value[OF n t])
  show "coalescent_log_space exact_arithmetic n k theta = Some (ln (coalescent_sum n k theta))"
    by (rule coalescent_log_space_value[OF n t])
next
  show "coalescent ar n' k' theta'
       = (if k' \<le> 80 then coalescent_real_space ar n' k' theta'
          else coalescent_log_space ar n' k' theta')"
    by (simp only: coalescent_def)
qed

text \<open>
  Two haplotypes and three sites at \<open>theta = 1\<close>: both forms return \<open>ln (1 / 16)\<close>. The
  dispatch shows at a negative \<open>theta\<close>, where the two forms differ also in exact
  arithmetic: at \<open>theta = - 1 / 2\<close> the real-space form returns \<open>ln 2\<close> for every even \<open>k\<close>
  and the log-space form, which takes the logarithm of \<open>theta / (theta + 1) = - 1\<close>,
  returns no number; \<^verbatim>\<open>coalescent\<close> returns \<open>ln 2\<close> at \<open>k = 80\<close> and no number at \<open>k = 82\<close>.
\<close>

theorem coalescent_real_and_log_space_witness:
  "coalescent_real_space exact_arithmetic 2 3 1 = Some (ln (1 / 16))
   \<and> coalescent_log_space exact_arithmetic 2 3 1 = Some (ln (1 / 16))
   \<and> coalescent exact_arithmetic 2 80 (- (1 / 2)) = Some (ln 2)
   \<and> coalescent exact_arithmetic 2 82 (- (1 / 2)) = None"
proof -
  have s: "coalescent_sum 2 3 1 = 1 / 16" by (simp add: coalescent_sum_def power3_eq_cube)
  have u: "[2..<Suc 2] = [2]" by (simp add: upt_rec)
  have r: "coalescent_real_space exact_arithmetic 2 80 (- (1 / 2)) = Some (ln 2)"
    by (simp add: coalescent_real_space_def u exact_arithmetic_def real_space_term_def
        powm1_def binom_def std_log_def)
  have l: "coalescent_log_space exact_arithmetic 2 82 (- (1 / 2)) = None"
    by (simp add: coalescent_log_space_def u log_space_term_def std_log_def)
  from coalescent_real_and_log_space[of 2 1 3 exact_arithmetic 2 80 "- (1 / 2)"]
       coalescent_real_and_log_space[of 2 1 3 exact_arithmetic 2 82 "- (1 / 2)"]
  show ?thesis by (simp add: s r l)
qed

subsection \<open>The value of the coalescent model\<close>

lemma homopolymer_model_constructed:
  "CoalescentModel 6 [\<lparr> rep_pos = 2, rep_length = 4, rep_period = 1 \<rparr>]
     \<lparr> snp_heterozygosity = 1 / 2, indel_heterozygosity = 1 / 2 \<rparr> 0
   = Inr (homopolymer_model \<lparr> site_buffer1 := [] \<rparr>)"
  by (simp add: CoalescentModel_def homopolymer_model_def)

















lemma CoalescentModel_valid:
  assumes "CoalescentModel reference_size reference_repeats ps hint = Inr m"
  shows "zero_cache_valid ar m \<and> pos_cache_valid ar m \<and> params m = ps
       \<and> 0 < snp_heterozygosity ps \<and> 0 < indel_heterozygosity ps"
proof -
  from assms have pos: "0 < snp_heterozygosity ps \<and> 0 < indel_heterozygosity ps"
    by (auto simp: CoalescentModel_def split: if_splits)
  with assms have m: "k_indel_zero_result_cache m = replicate (2 * hint) []"
       "k_indel_pos_result_cache m = Map.empty" "params m = ps"
    by (auto simp: CoalescentModel_def split: if_splits)
  have "zero_cache_valid ar m"
    unfolding zero_cache_valid_def m(1) by (simp add: nth_replicate)
  moreover have "pos_cache_valid ar m"
    unfolding pos_cache_valid_def m(2) by simp
  ultimately show ?thesis using m(3) pos by simp
qed







end
